theory Spec2Isabelle
  imports Complex_Main "HOL-Library.AList" "HOL-Library.Char_ord" "HOL-Library.List_Lexorder"
    "HOL-Library.Product_Lexorder"
begin

section \<open>Values and JavaScript objects\<close>

text \<open>
  The engine (class \<open>Chronicle\<close>) moves plain JavaScript objects between the caller and a
  SQLite connection. A bound value is \<open>null\<close>, a number or a string (blobs are left out).
  A number that is an integer is \<open>VInt\<close>; \<open>VReal\<close> holds the numbers that are not. An
  object is its list of (key, value) properties in \<open>Object.keys\<close> order; a well-formed
  object has distinct keys.
\<close>

datatype val = VNull | VInt int | VReal real | VText string

text \<open>A number as JavaScript sees it.\<close>

definition number :: "real \<Rightarrow> val" where
  "number x = (if of_int \<lfloor>x\<rfloor> = x then VInt \<lfloor>x\<rfloor> else VReal x)"

type_synonym obj = "(string \<times> val) list"

definition object_keys :: "obj \<Rightarrow> string list" where
  "object_keys ob = map fst ob"

definition object_values :: "obj \<Rightarrow> val list" where
  "object_values ob = map snd ob"

text \<open>\<open>ob[k]\<close>; a missing property reads as \<open>undefined\<close>, which the driver binds as NULL.\<close>

definition property :: "obj \<Rightarrow> string \<Rightarrow> val" where
  "property ob k = (case map_of ob k of Some v \<Rightarrow> v | None \<Rightarrow> VNull)"

text \<open>\<open>{ ...a, ...b }\<close>: the properties of \<open>a\<close>, each property of \<open>b\<close> assigned in turn.\<close>

definition spread :: "obj \<Rightarrow> obj \<Rightarrow> obj" where
  "spread a b = fold (\<lambda>(k, v). AList.update k v) b a"

text \<open>\<open>const { k1, k2, ...rest } = ob\<close>: the rest object.\<close>

definition rest_without :: "string list \<Rightarrow> obj \<Rightarrow> obj" where
  "rest_without ks ob = filter (\<lambda>(k, v). k \<notin> set ks) ob"

section \<open>The store\<close>

text \<open>
  The SQLite connection is an external collaborator. It is modelled as named relations
  whose rows are objects in column order, with the behaviour of the statements the engine
  prepares: a statement is rejected when a column list the engine interpolates is empty
  (the text is then not valid SQL), when its relation does not exist, when it names an
  unknown column, or when the rows it would leave violate a column constraint. The column
  constraints understood are exactly those the engine writes in its own \<open>CREATE TABLE\<close>;
  a live relation declared by the caller can use them as well. A value written to a column
  is converted by the column's type affinity. Identifier quoting is not modelled. A
  rejected statement leaves the store unchanged.

  Two conversions of SQLite are parameters of the store, so that every theorem holds
  whatever they are: \<open>text_of_number\<close>, the text SQLite makes of a number (the driver binds
  every JavaScript number as a floating point value, so 1 becomes \<open>1.0\<close>), and
  \<open>number_of_text\<close>, the value of a text that is a well-formed numeric literal.
\<close>

datatype sqlite_type = INTEGER | REAL | TEXT | BLOB

datatype column_constraint =
    Unconstrained
  | PrimaryKeyAutoincrement
  | NotNullDefaultCurrentTimestamp
  | NotNullCheckIn "string list"

record column_def =
  col_name :: string
  col_type :: sqlite_type
  col_constraint :: column_constraint

record relation =
  columns :: "column_def list"
  rows :: "obj list"
  seq :: int

record database =
  relations :: "string \<rightharpoonup> relation"
  clock :: string
  text_of_number :: "real \<Rightarrow> string"
  number_of_text :: "string \<Rightarrow> real option"

datatype sql_error =
    SyntaxError
  | NoSuchTable string
  | NoSuchColumn string
  | DuplicateColumn string
  | ConstraintFailed

definition column_names :: "relation \<Rightarrow> string list" where
  "column_names r = map col_name (columns r)"

definition unknown_column :: "relation \<Rightarrow> string list \<Rightarrow> string option" where
  "unknown_column r ks = find (\<lambda>k. k \<notin> set (column_names r)) ks"

text \<open>
  Type affinity. A TEXT column turns a number into its text. An INTEGER or REAL column
  turns a text that is a well-formed numeric literal into the number and keeps any other
  text. A BLOB column converts nothing. NULL is never converted. (What is read back is
  a JavaScript value: an integer kept in a REAL column still reads as that integer.)
\<close>

definition affinity :: "database \<Rightarrow> sqlite_type \<Rightarrow> val \<Rightarrow> val" where
  "affinity db ty v =
     (case ty of
        TEXT \<Rightarrow>
          (case v of
             VInt n \<Rightarrow> VText (text_of_number db (of_int n))
           | VReal x \<Rightarrow> VText (text_of_number db x)
           | _ \<Rightarrow> v)
      | BLOB \<Rightarrow> v
      | _ \<Rightarrow>
          (case v of
             VText s \<Rightarrow> (case number_of_text db s of Some x \<Rightarrow> number x | None \<Rightarrow> v)
           | _ \<Rightarrow> v))"

text \<open>The declared type of the column named \<open>k\<close>, and the value that column keeps of \<open>v\<close>.\<close>

definition column_type :: "relation \<Rightarrow> string \<Rightarrow> sqlite_type" where
  "column_type r k =
     (case find (\<lambda>cd. col_name cd = k) (columns r) of Some cd \<Rightarrow> col_type cd | None \<Rightarrow> BLOB)"

definition stored :: "database \<Rightarrow> relation \<Rightarrow> string \<Rightarrow> val \<Rightarrow> val" where
  "stored db r k v = affinity db (column_type r k) v"

text \<open>SQL equality: a comparison with NULL is never true.\<close>

definition sql_eq :: "val \<Rightarrow> val \<Rightarrow> bool" where
  "sql_eq a b = (a \<noteq> VNull \<and> b \<noteq> VNull \<and> a = b)"

text \<open>\<open>k1 = ? AND k2 = ? ...\<close> evaluated on a row.\<close>

definition matches :: "obj \<Rightarrow> obj \<Rightarrow> bool" where
  "matches wh row = list_all (\<lambda>(k, v). sql_eq (property row k) v) wh"

fun accepts :: "column_constraint \<Rightarrow> val \<Rightarrow> bool" where
  "accepts Unconstrained v = True"
| "accepts PrimaryKeyAutoincrement v = (case v of VInt n \<Rightarrow> True | _ \<Rightarrow> False)"
| "accepts NotNullDefaultCurrentTimestamp v = (v \<noteq> VNull)"
| "accepts (NotNullCheckIn xs) v = (case v of VText s \<Rightarrow> s \<in> set xs | _ \<Rightarrow> False)"

definition key_columns :: "relation \<Rightarrow> string list" where
  "key_columns r =
     map col_name (filter (\<lambda>cd. col_constraint cd = PrimaryKeyAutoincrement) (columns r))"

definition below_seq :: "int \<Rightarrow> val \<Rightarrow> bool" where
  "below_seq s v = (case v of VInt n \<Rightarrow> n \<le> s | _ \<Rightarrow> False)"

text \<open>
  What the store guarantees of every relation: each row has exactly the relation's columns,
  each cell satisfies its column's constraint, and a key column holds distinct integers; \<open>seq\<close>
  is the largest key ever used (SQLite's \<open>sqlite_sequence\<close>).
\<close>

definition row_ok :: "relation \<Rightarrow> obj \<Rightarrow> bool" where
  "row_ok r row =
     (map fst row = column_names r \<and>
      list_all (\<lambda>cd. accepts (col_constraint cd) (property row (col_name cd))) (columns r))"

definition key_ok :: "relation \<Rightarrow> string \<Rightarrow> bool" where
  "key_ok r k =
     (distinct (map (\<lambda>row. property row k) (rows r)) \<and>
      list_all (\<lambda>row. below_seq (seq r) (property row k)) (rows r))"

definition integrity :: "relation \<Rightarrow> bool" where
  "integrity r = (list_all (row_ok r) (rows r) \<and> list_all (key_ok r) (key_columns r))"

definition default_value :: "database \<Rightarrow> relation \<Rightarrow> column_def \<Rightarrow> val" where
  "default_value db r cd =
     (case col_constraint cd of
        PrimaryKeyAutoincrement \<Rightarrow> VInt (seq r + 1)
      | NotNullDefaultCurrentTimestamp \<Rightarrow> VText (clock db)
      | _ \<Rightarrow> VNull)"

text \<open>
  The row an \<open>INSERT INTO t (k1, ...) VALUES (?, ...)\<close> stores: a column that is not listed
  takes its default, NULL given for the integer key asks for the next key, and any other
  value is kept as the column's affinity converts it.
\<close>

definition new_row :: "database \<Rightarrow> relation \<Rightarrow> obj \<Rightarrow> obj" where
  "new_row db r vs =
     map (\<lambda>cd. (col_name cd,
           (case map_of vs (col_name cd) of
              None \<Rightarrow> default_value db r cd
            | Some v \<Rightarrow>
                if v = VNull \<and> col_constraint cd = PrimaryKeyAutoincrement
                then VInt (seq r + 1) else stored db r (col_name cd) v)))
         (columns r)"

definition bump_seq :: "string list \<Rightarrow> obj \<Rightarrow> int \<Rightarrow> int" where
  "bump_seq ks row s = fold (\<lambda>k m. case property row k of VInt n \<Rightarrow> max m n | _ \<Rightarrow> m) ks s"

definition sql_insert :: "string \<Rightarrow> obj \<Rightarrow> database \<Rightarrow> sql_error + database" where
  "sql_insert t vs db =
     (if vs = [] then Inl SyntaxError
      else case relations db t of
        None \<Rightarrow> Inl (NoSuchTable t)
      | Some r \<Rightarrow>
          (case unknown_column r (map fst vs) of
             Some k \<Rightarrow> Inl (NoSuchColumn k)
           | None \<Rightarrow>
               let row = new_row db r vs;
                   r' = r\<lparr>rows := rows r @ [row], seq := bump_seq (key_columns r) row (seq r)\<rparr>
               in if integrity r' then Inr (db\<lparr>relations := (relations db)(t \<mapsto> r')\<rparr>)
                  else Inl ConstraintFailed))"

text \<open>\<open>SELECT * FROM t WHERE k1 = ? AND ...\<close>, the rows in table order.\<close>

definition sql_select :: "string \<Rightarrow> obj \<Rightarrow> database \<Rightarrow> sql_error + obj list" where
  "sql_select t wh db =
     (if wh = [] then Inl SyntaxError
      else case relations db t of
        None \<Rightarrow> Inl (NoSuchTable t)
      | Some r \<Rightarrow>
          (case unknown_column r (map fst wh) of
             Some k \<Rightarrow> Inl (NoSuchColumn k)
           | None \<Rightarrow> Inr (filter (matches wh) (rows r))))"

text \<open>The sort key of \<open>ORDER BY\<close>: NULL before numbers before text.\<close>

fun val_key :: "val \<Rightarrow> nat \<times> real \<times> string" where
  "val_key VNull = (0, 0, [])"
| "val_key (VInt n) = (1, of_int n, [])"
| "val_key (VReal x) = (1, x, [])"
| "val_key (VText s) = (2, 0, s)"

text \<open>\<open>SELECT * FROM t WHERE k1 = ? AND ... ORDER BY c ASC\<close>.\<close>

definition sql_select_order_by ::
  "string \<Rightarrow> obj \<Rightarrow> string \<Rightarrow> database \<Rightarrow> sql_error + obj list" where
  "sql_select_order_by t wh c db =
     (if wh = [] then Inl SyntaxError
      else case relations db t of
        None \<Rightarrow> Inl (NoSuchTable t)
      | Some r \<Rightarrow>
          (case unknown_column r (map fst wh @ [c]) of
             Some k \<Rightarrow> Inl (NoSuchColumn k)
           | None \<Rightarrow> Inr (sort_key (\<lambda>row. val_key (property row c)) (filter (matches wh) (rows r)))))"

text \<open>\<open>Statement.get\<close>: the first row, or \<open>undefined\<close>.\<close>

definition statement_get :: "obj list \<Rightarrow> obj option" where
  "statement_get found = (case found of [] \<Rightarrow> None | row # _ \<Rightarrow> Some row)"

text \<open>
  \<open>SET k1 = ?, ...\<close> applied to a row: an assigned column keeps the value as its
  affinity converts it.
\<close>

definition assign :: "database \<Rightarrow> relation \<Rightarrow> obj \<Rightarrow> obj \<Rightarrow> obj" where
  "assign db r vs row =
     map (\<lambda>(k, v). (k, case map_of vs k of Some w \<Rightarrow> stored db r k w | None \<Rightarrow> v)) row"

definition sql_update :: "string \<Rightarrow> obj \<Rightarrow> obj \<Rightarrow> database \<Rightarrow> sql_error + database" where
  "sql_update t vs wh db =
     (if vs = [] \<or> wh = [] then Inl SyntaxError
      else case relations db t of
        None \<Rightarrow> Inl (NoSuchTable t)
      | Some r \<Rightarrow>
          (case unknown_column r (map fst vs @ map fst wh) of
             Some k \<Rightarrow> Inl (NoSuchColumn k)
           | None \<Rightarrow>
               let rows' = map (\<lambda>row. if matches wh row then assign db r vs row else row) (rows r);
                   r' = r\<lparr>rows := rows', seq := fold (bump_seq (key_columns r)) rows' (seq r)\<rparr>
               in if integrity r' then Inr (db\<lparr>relations := (relations db)(t \<mapsto> r')\<rparr>)
                  else Inl ConstraintFailed))"

definition sql_delete :: "string \<Rightarrow> obj \<Rightarrow> database \<Rightarrow> sql_error + database" where
  "sql_delete t wh db =
     (if wh = [] then Inl SyntaxError
      else case relations db t of
        None \<Rightarrow> Inl (NoSuchTable t)
      | Some r \<Rightarrow>
          (case unknown_column r (map fst wh) of
             Some k \<Rightarrow> Inl (NoSuchColumn k)
           | None \<Rightarrow>
               Inr (db\<lparr>relations :=
                      (relations db)(t \<mapsto> r\<lparr>rows := filter (\<lambda>row. \<not> matches wh row) (rows r)\<rparr>)\<rparr>)))"

fun first_duplicate :: "string list \<Rightarrow> string option" where
  "first_duplicate [] = None"
| "first_duplicate (k # ks) = (if k \<in> set ks then Some k else first_duplicate ks)"

text \<open>\<open>CREATE TABLE IF NOT EXISTS t (...)\<close>: nothing happens when the relation exists.\<close>

definition sql_create_table_if_not_exists ::
  "string \<Rightarrow> column_def list \<Rightarrow> database \<Rightarrow> sql_error + database" where
  "sql_create_table_if_not_exists t cds db =
     (case relations db t of
        Some r \<Rightarrow> Inr db
      | None \<Rightarrow>
          (case first_duplicate (map col_name cds) of
             Some k \<Rightarrow> Inl (DuplicateColumn k)
           | None \<Rightarrow>
               Inr (db\<lparr>relations := (relations db)(t \<mapsto> \<lparr>columns = cds, rows = [], seq = 0\<rparr>)\<rparr>)))"

section \<open>The engine\<close>

datatype versioning_strategy = SimpleVersioning | UniTemporal | BiTemporal

datatype version_operation = INSERT | UPDATE | DELETE

fun operation_text :: "version_operation \<Rightarrow> string" where
  "operation_text INSERT = ''INSERT''"
| "operation_text UPDATE = ''UPDATE''"
| "operation_text DELETE = ''DELETE''"

text \<open>\<open>ChronicleConfig\<close> (every option may be absent) and \<open>Required<ChronicleConfig>\<close>.\<close>

record chronicle_config =
  strategy_option :: "versioning_strategy option"
  historyTableSuffix_option :: "string option"
  autoCreateHistoryTables_option :: "bool option"

record config =
  strategy :: versioning_strategy
  historyTableSuffix :: string
  autoCreateHistoryTables :: bool

text \<open>
  A live table descriptor (\<open>SQLiteTable\<close>) is an object whose properties are probed at run
  time: a property value is either no object at all, or an object that may carry \<open>name\<close>,
  \<open>dataType\<close> and \<open>columnType\<close>.
\<close>

datatype js_value =
    Primitive
  | Object (name: "string option") (dataType: "string option") (columnType: "string option")

type_synonym sqlite_table = "(string \<times> js_value) list"

record versioned_table =
  table :: sqlite_table
  historyTableName :: string
  table_config :: config

record chronicle =
  config :: config
  versionedTables :: "string \<rightharpoonup> versioned_table"
  sqlite :: database

text \<open>
  The source throws \<open>Error\<close> with a message; the constructors name the messages:
  "Table ... is not registered for versioning", "Record not found", "Version ... not found",
  "Invalid column definition for ...", and an error raised by the store.
\<close>

datatype error =
    NotRegistered string
  | RecordNotFound
  | VersionNotFound int
  | InvalidColumnDefinition string
  | SqliteError sql_error

text \<open>A call returns or throws, and leaves the engine in a state either way.\<close>

type_synonym 'a outcome = "(error + 'a) \<times> chronicle"

definition Chronicle :: "database \<Rightarrow> chronicle_config \<Rightarrow> chronicle" where
  "Chronicle db cfg =
     \<lparr>config =
        \<lparr>strategy = (case strategy_option cfg of Some s \<Rightarrow> s | None \<Rightarrow> SimpleVersioning),
         historyTableSuffix =
           (case historyTableSuffix_option cfg of Some s \<Rightarrow> s | None \<Rightarrow> ''_history''),
         autoCreateHistoryTables =
           (case autoCreateHistoryTables_option cfg of Some b \<Rightarrow> b | None \<Rightarrow> True)\<rparr>,
      versionedTables = Map.empty,
      sqlite = db\<rparr>"

subsection \<open>createHistoryTable\<close>

text \<open>\<open>value && typeof value === "object" && "name" in value\<close>\<close>

fun has_name :: "js_value \<Rightarrow> bool" where
  "has_name Primitive = False"
| "has_name (Object n d c) = (n \<noteq> None)"

definition sqliteType :: "string option \<Rightarrow> string option \<Rightarrow> sqlite_type" where
  "sqliteType dt ct =
     (if dt = Some ''integer'' \<or> ct = Some ''SQLiteInteger'' then INTEGER
      else if dt = Some ''real'' \<or> ct = Some ''SQLiteReal'' then REAL
      else if dt = Some ''text'' \<or> ct = Some ''SQLiteText'' then TEXT
      else if dt = Some ''blob'' \<or> ct = Some ''SQLiteBlob'' then BLOB
      else TEXT)"

text \<open>The body of the \<open>map\<close> callback: one column definition, or the throw.\<close>

fun columnDef :: "string \<times> js_value \<Rightarrow> error + column_def" where
  "columnDef (col, Object (Some columnName) dt ct) =
     Inr \<lparr>col_name = columnName, col_type = sqliteType dt ct, col_constraint = Unconstrained\<rparr>"
| "columnDef (col, column) = Inl (InvalidColumnDefinition col)"

text \<open>\<open>Array.map\<close> with a callback that may throw: the first throw ends the loop.\<close>

fun map_throwing :: "('a \<Rightarrow> error + 'b) \<Rightarrow> 'a list \<Rightarrow> error + 'b list" where
  "map_throwing f [] = Inr []"
| "map_throwing f (x # xs) =
     (case f x of
        Inl e \<Rightarrow> Inl e
      | Inr y \<Rightarrow> (case map_throwing f xs of Inl e \<Rightarrow> Inl e | Inr ys \<Rightarrow> Inr (y # ys)))"

text \<open>The three columns the \<open>CREATE TABLE\<close> text lists before the derived ones.\<close>

definition version_columns :: "column_def list" where
  "version_columns =
     [\<lparr>col_name = ''version_id'', col_type = INTEGER, col_constraint = PrimaryKeyAutoincrement\<rparr>,
      \<lparr>col_name = ''version_created_at'', col_type = TEXT,
        col_constraint = NotNullDefaultCurrentTimestamp\<rparr>,
      \<lparr>col_name = ''version_operation'', col_type = TEXT,
        col_constraint = NotNullCheckIn [''INSERT'', ''UPDATE'', ''DELETE'']\<rparr>]"

text \<open>
  With no derived column the statement text ends in \<open>"..., )"\<close>, which SQLite does not parse.
\<close>

definition createHistoryTable :: "string \<Rightarrow> sqlite_table \<Rightarrow> chronicle \<Rightarrow> unit outcome" where
  "createHistoryTable tableName tbl c =
     (let historyTableName = tableName @ historyTableSuffix (config c);
          columns = filter (\<lambda>(key, value). has_name value) tbl
      in case map_throwing columnDef columns of
           Inl e \<Rightarrow> (Inl e, c)
         | Inr columnDefs \<Rightarrow>
             if columnDefs = [] then (Inl (SqliteError SyntaxError), c)
             else (case sql_create_table_if_not_exists historyTableName
                          (version_columns @ columnDefs) (sqlite c) of
                     Inl e \<Rightarrow> (Inl (SqliteError e), c)
                   | Inr db \<Rightarrow> (Inr (), c\<lparr>sqlite := db\<rparr>)))"

subsection \<open>registerTable\<close>

definition registerTable ::
  "sqlite_table \<Rightarrow> string \<Rightarrow> chronicle \<Rightarrow> versioned_table outcome" where
  "registerTable tbl tableName c =
     (let historyTableName = tableName @ historyTableSuffix (config c);
          versionedTable =
            \<lparr>table = tbl, historyTableName = historyTableName, table_config = config c\<rparr>;
          c1 = c\<lparr>versionedTables := (versionedTables c)(tableName \<mapsto> versionedTable)\<rparr>
      in if autoCreateHistoryTables (config c)
         then (case createHistoryTable tableName tbl c1 of
                 (Inl e, c2) \<Rightarrow> (Inl e, c2)
               | (Inr u, c2) \<Rightarrow> (Inr versionedTable, c2))
         else (Inr versionedTable, c1))"

subsection \<open>recordVersion\<close>

text \<open>
  \<open>INSERT INTO <history> (version_operation, k1, ...) VALUES (?, ?, ...)\<close> with the
  operation and the values in key order. The registry is not consulted.
\<close>

definition recordVersion ::
  "string \<Rightarrow> obj \<Rightarrow> version_operation \<Rightarrow> chronicle \<Rightarrow> unit outcome" where
  "recordVersion tableName vals operation c =
     (let historyTableName = tableName @ historyTableSuffix (config c);
          columns = ''version_operation'' # object_keys vals;
          insertValues = VText (operation_text operation) # object_values vals
      in case sql_insert historyTableName (zip columns insertValues) (sqlite c) of
           Inl e \<Rightarrow> (Inl (SqliteError e), c)
         | Inr db \<Rightarrow> (Inr (), c\<lparr>sqlite := db\<rparr>))"

subsection \<open>insert, update, delete\<close>

text \<open>
  The method \<open>insert\<close> is called \<open>insert_record\<close> here. Each method looks the table up
  in the registry first. \<open>insert\<close> runs \<open>INSERT INTO <table> (k1, ...) VALUES (?, ...)\<close>
  and records the supplied values. \<open>update\<close> and \<open>delete\<close> run \<open>SELECT * FROM <table>
  WHERE k1 = ? AND ...\<close> and take the first row; a row that the store returns is a
  record, so the test \<open>!current || !isRecord(current)\<close> holds exactly when there is no
  row. Then \<open>update\<close> runs \<open>UPDATE <table> SET ... WHERE ...\<close> and records the first row
  spread with the new values, and \<open>delete\<close> runs \<open>DELETE FROM <table> WHERE ...\<close> and
  records the first row. An error of the store propagates; what was written before it
  stays written.
\<close>

definition insert_record :: "string \<Rightarrow> obj \<Rightarrow> chronicle \<Rightarrow> unit outcome" where
  "insert_record tableName vals c =
     (case versionedTables c tableName of
        None \<Rightarrow> (Inl (NotRegistered tableName), c)
      | Some versionedTable \<Rightarrow>
          (let columns = object_keys vals;
               insertValues = map (\<lambda>col. property vals col) columns
           in case sql_insert tableName (zip columns insertValues) (sqlite c) of
                Inl e \<Rightarrow> (Inl (SqliteError e), c)
              | Inr db \<Rightarrow> recordVersion tableName vals INSERT (c\<lparr>sqlite := db\<rparr>)))"

definition update :: "string \<Rightarrow> obj \<Rightarrow> obj \<Rightarrow> chronicle \<Rightarrow> unit outcome" where
  "update tableName vals wh c =
     (case versionedTables c tableName of
        None \<Rightarrow> (Inl (NotRegistered tableName), c)
      | Some versionedTable \<Rightarrow>
          (case sql_select tableName wh (sqlite c) of
             Inl e \<Rightarrow> (Inl (SqliteError e), c)
           | Inr found \<Rightarrow>
               (case statement_get found of
                  None \<Rightarrow> (Inl RecordNotFound, c)
                | Some current \<Rightarrow>
                    (case sql_update tableName vals wh (sqlite c) of
                       Inl e \<Rightarrow> (Inl (SqliteError e), c)
                     | Inr db \<Rightarrow>
                         recordVersion tableName (spread current vals) UPDATE
                           (c\<lparr>sqlite := db\<rparr>)))))"

definition delete :: "string \<Rightarrow> obj \<Rightarrow> chronicle \<Rightarrow> unit outcome" where
  "delete tableName wh c =
     (case versionedTables c tableName of
        None \<Rightarrow> (Inl (NotRegistered tableName), c)
      | Some versionedTable \<Rightarrow>
          (case sql_select tableName wh (sqlite c) of
             Inl e \<Rightarrow> (Inl (SqliteError e), c)
           | Inr found \<Rightarrow>
               (case statement_get found of
                  None \<Rightarrow> (Inl RecordNotFound, c)
                | Some current \<Rightarrow>
                    (case sql_delete tableName wh (sqlite c) of
                       Inl e \<Rightarrow> (Inl (SqliteError e), c)
                     | Inr db \<Rightarrow> recordVersion tableName current DELETE (c\<lparr>sqlite := db\<rparr>)))))"

subsection \<open>getVersions, getVersion, rollback\<close>

text \<open>
  \<open>getVersions\<close> runs \<open>SELECT * FROM <history> WHERE k1 = ? AND ... ORDER BY version_id
  ASC\<close>, \<open>getVersion\<close> runs \<open>SELECT * FROM <history> WHERE version_id = ?\<close> and turns
  \<open>undefined\<close> into \<open>null\<close>; neither looks at the registry. \<open>rollback\<close> does, then reads
  the version, removes the three metadata properties and calls \<open>update\<close>.
\<close>

definition getVersions :: "string \<Rightarrow> obj \<Rightarrow> chronicle \<Rightarrow> error + obj list" where
  "getVersions tableName wh c =
     (let historyTableName = tableName @ historyTableSuffix (config c)
      in case sql_select_order_by historyTableName wh ''version_id'' (sqlite c) of
           Inl e \<Rightarrow> Inl (SqliteError e)
         | Inr versions \<Rightarrow> Inr versions)"

definition getVersion :: "string \<Rightarrow> int \<Rightarrow> chronicle \<Rightarrow> error + obj option" where
  "getVersion tableName versionId c =
     (let historyTableName = tableName @ historyTableSuffix (config c)
      in case sql_select historyTableName [(''version_id'', VInt versionId)] (sqlite c) of
           Inl e \<Rightarrow> Inl (SqliteError e)
         | Inr found \<Rightarrow> Inr (statement_get found))"

record rollback_options =
  versionId :: int
  where_option :: obj

definition rollback :: "string \<Rightarrow> rollback_options \<Rightarrow> chronicle \<Rightarrow> unit outcome" where
  "rollback tableName options c =
     (case versionedTables c tableName of
        None \<Rightarrow> (Inl (NotRegistered tableName), c)
      | Some versionedTable \<Rightarrow>
          (case getVersion tableName (versionId options) c of
             Inl e \<Rightarrow> (Inl e, c)
           | Inr None \<Rightarrow> (Inl (VersionNotFound (versionId options)), c)
           | Inr (Some version) \<Rightarrow>
               (let data = rest_without
                             [''version_id'', ''version_created_at'', ''version_operation'']
                             version
                in update tableName data (where_option options) c)))"

section \<open>Vocabulary of the claims\<close>

text \<open>The names of the three metadata columns.\<close>

definition version_names :: "string list" where
  "version_names = [''version_id'', ''version_created_at'', ''version_operation'']"

text \<open>
  The history relation that \<open>createHistoryTable\<close> creates for a live table whose columns
  are named \<open>live_names\<close>: the three version columns, then one unconstrained column per
  live column.
\<close>

definition history_shape :: "string list \<Rightarrow> relation \<Rightarrow> bool" where
  "history_shape live_names hist =
     (take 3 (columns hist) = version_columns \<and>
      map col_name (drop 3 (columns hist)) = live_names \<and>
      list_all (\<lambda>cd. col_constraint cd = Unconstrained) (drop 3 (columns hist)) \<and>
      distinct (column_names hist))"

text \<open>
  The row the store keeps of a version whose attributes, as stored, are \<open>vals\<close>: the
  store assigns the key and the timestamp, the engine supplies the operation and the
  attributes.
\<close>

definition version_row :: "database \<Rightarrow> relation \<Rightarrow> version_operation \<Rightarrow> obj \<Rightarrow> string list \<Rightarrow> obj" where
  "version_row db hist operation vals ns =
     [(''version_id'', VInt (seq hist + 1)),
      (''version_created_at'', VText (clock db)),
      (''version_operation'', VText (operation_text operation))] @
     map (\<lambda>k. (k, property vals k)) ns"

text \<open>
  An object as the columns of a relation store it, and the objects that the columns keep
  as they are: every value is of its column's storage class.
\<close>

definition stored_object :: "database \<Rightarrow> relation \<Rightarrow> obj \<Rightarrow> obj" where
  "stored_object db r ob = map (\<lambda>(k, v). (k, stored db r k v)) ob"

definition kept :: "database \<Rightarrow> relation \<Rightarrow> obj \<Rightarrow> bool" where
  "kept db r ob = list_all (\<lambda>(k, v). stored db r k v = v) ob"

text \<open>The integer in a version row's \<open>version_id\<close> column.\<close>

definition version_id_of :: "obj \<Rightarrow> int" where
  "version_id_of row = (case property row ''version_id'' of VInt n \<Rightarrow> n | _ \<Rightarrow> 0)"

text \<open>
  The columns of a live table as its descriptor declares them: one column per property
  that carries a name, in the order of the properties.
\<close>

fun live_columns :: "sqlite_table \<Rightarrow> column_def list" where
  "live_columns [] = []"
| "live_columns ((key, Object (Some columnName) dt ct) # tbl) =
     \<lparr>col_name = columnName, col_type = sqliteType dt ct, col_constraint = Unconstrained\<rparr>
       # live_columns tbl"
| "live_columns ((key, value) # tbl) = live_columns tbl"

section \<open>A running example\<close>

text \<open>
  The conversions of the example store. They agree with SQLite on what the examples
  use: the text of an integer of fewer than sixteen digits, and the value of a text that
  is a decimal literal (digits with an optional sign and fraction) or holds no number.
\<close>

fun digits :: "nat \<Rightarrow> string" where
  "digits n =
     (if n < 10 then [''0123456789'' ! n]
      else digits (n div 10) @ [''0123456789'' ! (n mod 10)])"

declare digits.simps [simp del]

definition example_text_of_number :: "real \<Rightarrow> string" where
  "example_text_of_number x =
     (if x < 0 then ''-'' else []) @ digits (nat \<lfloor>\<bar>x\<bar>\<rfloor>) @ ''.0''"

definition is_digits :: "string \<Rightarrow> bool" where
  "is_digits s = (s \<noteq> [] \<and> list_all (\<lambda>c. c \<in> set ''0123456789'') s)"

definition digits_value :: "string \<Rightarrow> nat" where
  "digits_value s = foldl (\<lambda>n c. 10 * n + (of_char c - 48)) 0 s"

definition decimal_value :: "string \<Rightarrow> real option" where
  "decimal_value s =
     (let whole = takeWhile (\<lambda>c. c \<noteq> CHR ''.'') s;
          rest = dropWhile (\<lambda>c. c \<noteq> CHR ''.'') s
      in if is_digits whole \<and> rest = [] then Some (of_nat (digits_value whole))
         else if is_digits whole \<and> is_digits (tl rest)
         then Some (of_nat (digits_value whole)
                    + of_nat (digits_value (tl rest)) / 10 ^ length (tl rest))
         else None)"

definition example_number_of_text :: "string \<Rightarrow> real option" where
  "example_number_of_text s =
     (case s of
        [] \<Rightarrow> None
      | c # t \<Rightarrow> if c = CHR ''-'' then map_option uminus (decimal_value t) else decimal_value s)"

text \<open>
  A live table \<open>users (id INTEGER PRIMARY KEY AUTOINCREMENT, name TEXT)\<close>, its descriptor,
  and an engine with the default configuration that has registered it.
\<close>

definition example_table :: sqlite_table where
  "example_table =
     [(''id'', Object (Some ''id'') (Some ''number'') (Some ''SQLiteInteger'')),
      (''name'', Object (Some ''name'') (Some ''string'') (Some ''SQLiteText''))]"

definition example_live :: "obj list \<Rightarrow> int \<Rightarrow> relation" where
  "example_live rs s =
     \<lparr>columns =
        [\<lparr>col_name = ''id'', col_type = INTEGER, col_constraint = PrimaryKeyAutoincrement\<rparr>,
         \<lparr>col_name = ''name'', col_type = TEXT, col_constraint = Unconstrained\<rparr>],
      rows = rs, seq = s\<rparr>"

definition example_history :: "obj list \<Rightarrow> int \<Rightarrow> relation" where
  "example_history rs s =
     \<lparr>columns = version_columns @
        [\<lparr>col_name = ''id'', col_type = INTEGER, col_constraint = Unconstrained\<rparr>,
         \<lparr>col_name = ''name'', col_type = TEXT, col_constraint = Unconstrained\<rparr>],
      rows = rs, seq = s\<rparr>"

definition example_row :: "int \<Rightarrow> string \<Rightarrow> obj" where
  "example_row i s = [(''id'', VInt i), (''name'', VText s)]"

definition example_version :: "int \<Rightarrow> string \<Rightarrow> val \<Rightarrow> string \<Rightarrow> obj" where
  "example_version n operation i s =
     [(''version_id'', VInt n), (''version_created_at'', VText ''now''),
      (''version_operation'', VText operation), (''id'', i), (''name'', VText s)]"

definition example_config :: config where
  "example_config =
     \<lparr>strategy = SimpleVersioning, historyTableSuffix = ''_history'',
      autoCreateHistoryTables = True\<rparr>"

definition example_versioned :: versioned_table where
  "example_versioned =
     \<lparr>table = example_table, historyTableName = ''users_history'',
      table_config = example_config\<rparr>"

definition example_database :: "relation \<Rightarrow> relation \<Rightarrow> database" where
  "example_database live hist =
     \<lparr>relations = [''users'' \<mapsto> live, ''users_history'' \<mapsto> hist], clock = ''now'',
      text_of_number = example_text_of_number, number_of_text = example_number_of_text\<rparr>"

definition example_engine :: "relation \<Rightarrow> relation \<Rightarrow> chronicle" where
  "example_engine live hist =
     \<lparr>config = example_config,
      versionedTables = [''users'' \<mapsto> example_versioned],
      sqlite = example_database live hist\<rparr>"

text \<open>The engine right after registration, and after three mutations of record 1.\<close>

definition example_empty :: chronicle where
  "example_empty = example_engine (example_live [] 0) (example_history [] 0)"

definition example_versions :: "obj list" where
  "example_versions =
     [example_version 1 ''INSERT'' (VInt 1) ''V1'',
      example_version 2 ''UPDATE'' (VInt 1) ''V2'',
      example_version 3 ''UPDATE'' (VInt 1) ''V3'']"

definition example_busy :: chronicle where
  "example_busy =
     example_engine (example_live [example_row 1 ''V3''] 1) (example_history example_versions 3)"

text \<open>The engine after record 1 has been deleted as well.\<close>

definition example_deleted :: chronicle where
  "example_deleted =
     example_engine (example_live [] 1)
       (example_history (example_versions @ [example_version 4 ''DELETE'' (VInt 1) ''V3'']) 4)"

text \<open>
  A fresh engine over a store that holds only the live relation; a fresh engine over the
  store of \<open>example_busy\<close>, which has registered nothing; and a descriptor whose first
  property lacks a name.
\<close>

definition example_defaults :: chronicle_config where
  "example_defaults =
     \<lparr>strategy_option = None, historyTableSuffix_option = None,
      autoCreateHistoryTables_option = None\<rparr>"

definition example_new :: chronicle where
  "example_new =
     Chronicle \<lparr>relations = [''users'' \<mapsto> example_live [] 0], clock = ''now'',
                text_of_number = example_text_of_number,
                number_of_text = example_number_of_text\<rparr> example_defaults"

definition example_unregistered :: chronicle where
  "example_unregistered =
     Chronicle (example_database (example_live [example_row 1 ''V3''] 1)
                  (example_history example_versions 3)) example_defaults"

definition example_nameless :: sqlite_table where
  "example_nameless =
     [(''id'', Object None (Some ''number'') (Some ''SQLiteInteger'')),
      (''name'', Object (Some ''name'') (Some ''string'') (Some ''SQLiteText''))]"

text \<open>
  A second table, \<open>flags (id INTEGER PRIMARY KEY AUTOINCREMENT, active INTEGER)\<close>, whose
  descriptor declares \<open>active\<close> as a boolean: \<open>createHistoryTable\<close> recognises neither
  its \<open>dataType\<close> nor its \<open>columnType\<close> and types the history column TEXT.
\<close>

definition example_flags_table :: sqlite_table where
  "example_flags_table =
     [(''id'', Object (Some ''id'') (Some ''number'') (Some ''SQLiteInteger'')),
      (''active'', Object (Some ''active'') (Some ''boolean'') (Some ''SQLiteBoolean''))]"

definition example_flags_live :: "obj list \<Rightarrow> int \<Rightarrow> relation" where
  "example_flags_live rs s =
     \<lparr>columns =
        [\<lparr>col_name = ''id'', col_type = INTEGER, col_constraint = PrimaryKeyAutoincrement\<rparr>,
         \<lparr>col_name = ''active'', col_type = INTEGER, col_constraint = Unconstrained\<rparr>],
      rows = rs, seq = s\<rparr>"

definition example_flags_history :: "obj list \<Rightarrow> int \<Rightarrow> relation" where
  "example_flags_history rs s =
     \<lparr>columns = version_columns @ live_columns example_flags_table, rows = rs, seq = s\<rparr>"

definition example_flag :: "int \<Rightarrow> obj" where
  "example_flag a = [(''id'', VInt 1), (''active'', VInt a)]"

definition example_flag_version :: "int \<Rightarrow> string \<Rightarrow> string \<Rightarrow> obj" where
  "example_flag_version n operation a =
     [(''version_id'', VInt n), (''version_created_at'', VText ''now''),
      (''version_operation'', VText operation), (''id'', VInt 1), (''active'', VText a)]"

definition example_flags_database :: "relation \<Rightarrow> relation \<Rightarrow> database" where
  "example_flags_database live hist =
     \<lparr>relations = [''flags'' \<mapsto> live, ''flags_history'' \<mapsto> hist], clock = ''now'',
      text_of_number = example_text_of_number, number_of_text = example_number_of_text\<rparr>"

definition example_flags_engine :: "relation \<Rightarrow> relation \<Rightarrow> chronicle" where
  "example_flags_engine live hist =
     \<lparr>config = example_config,
      versionedTables = [''flags'' \<mapsto>
        \<lparr>table = example_flags_table, historyTableName = ''flags_history'',
         table_config = example_config\<rparr>],
      sqlite = example_flags_database live hist\<rparr>"

text \<open>The flags engine before registration: the store holds the live relation only.\<close>

definition example_flags_new :: chronicle where
  "example_flags_new =
     Chronicle \<lparr>relations = [''flags'' \<mapsto> example_flags_live [] 0], clock = ''now'',
                text_of_number = example_text_of_number,
                number_of_text = example_number_of_text\<rparr> example_defaults"

text \<open>The flags engine right after registration, and after flag 1 has been inserted.\<close>

definition example_flags_empty :: chronicle where
  "example_flags_empty =
     example_flags_engine (example_flags_live [] 0) (example_flags_history [] 0)"

definition example_flags_busy :: chronicle where
  "example_flags_busy =
     example_flags_engine (example_flags_live [example_flag 1] 1)
       (example_flags_history [example_flag_version 1 ''INSERT'' ''1.0''] 1)"


section \<open>Auxiliary facts\<close>

lemma zip_keys_values: "zip (k # object_keys vs) (v # object_values vs) = (k, v) # vs"
  by (simp add: object_keys_def object_values_def zip_map_fst_snd)

lemma property_eq: "map_of ob k = Some v \<Longrightarrow> property ob k = v"
  by (simp add: property_def)

lemma zip_keys_properties:
  "distinct (map fst vs) \<Longrightarrow> zip (object_keys vs) (map (property vs) (object_keys vs)) = vs"
proof -
  assume d: "distinct (map fst vs)"
  have "map (property vs) (map fst vs) = map snd vs"
  proof (rule nth_equalityI)
    show "length (map (property vs) (map fst vs)) = length (map snd vs)" by simp
  next
    fix i assume "i < length (map (property vs) (map fst vs))"
    then have i: "i < length vs" by simp
    then have "(fst (vs ! i), snd (vs ! i)) \<in> set vs" by simp
    with d have "map_of vs (fst (vs ! i)) = Some (snd (vs ! i))" by (rule map_of_is_SomeI)
    then show "map (property vs) (map fst vs) ! i = map snd vs ! i"
      using i by (simp add: property_def)
  qed
  then show ?thesis unfolding object_keys_def by (simp only: zip_map_fst_snd)
qed

lemma statement_get_filter: "statement_get (filter P xs) = find P xs"
  by (induction xs) (auto simp: statement_get_def)

lemma unknown_column_None: "unknown_column r ks = None \<longleftrightarrow> set ks \<subseteq> set (column_names r)"
  by (auto simp: unknown_column_def find_None_iff)

lemma affinity_null: "affinity db ty VNull = VNull"
  by (cases ty) (simp_all add: affinity_def)

lemma stored_null: "stored db r k VNull = VNull"
  by (simp add: stored_def affinity_null)

lemma stored_same_conversions:
  assumes "text_of_number db' = text_of_number db" "number_of_text db' = number_of_text db"
  shows "stored db' = stored db"
proof (intro ext)
  fix r k v
  show "stored db' r k v = stored db r k v"
    unfolding stored_def affinity_def by (simp only: assms)
qed

lemma stored_object_same_conversions:
  assumes "text_of_number db' = text_of_number db" "number_of_text db' = number_of_text db"
  shows "stored_object db' = stored_object db"
  by (intro ext) (simp add: stored_object_def stored_same_conversions[OF assms])


lemma property_stored_object:
  "property (stored_object db r ob) k = stored db r k (property ob k)"
  by (induction ob) (auto simp: stored_object_def property_def stored_null)

lemma kept_stored_object: "kept db r ob \<Longrightarrow> stored_object db r ob = ob"
  unfolding stored_object_def kept_def
  by (rule map_idI) (auto simp: list_all_iff)

lemma shape_columns:
  "history_shape ns hist \<Longrightarrow> columns hist = version_columns @ drop 3 (columns hist)"
  by (metis append_take_drop_id history_shape_def)

lemma shape_names:
  "history_shape ns hist \<Longrightarrow> column_names hist = version_names @ ns"
  unfolding column_names_def
  by (subst shape_columns, assumption) (simp add: history_shape_def version_columns_def version_names_def)

lemma shape_key_columns:
  assumes "history_shape ns hist" shows "key_columns hist = [''version_id'']"
proof -
  have "filter (\<lambda>cd. col_constraint cd = PrimaryKeyAutoincrement) (drop 3 (columns hist)) = []"
    using assms by (auto simp: history_shape_def filter_empty_conv list_all_iff)
  then show ?thesis
    unfolding key_columns_def
    by (subst shape_columns[OF assms]) (simp add: version_columns_def)
qed


lemma shape_fresh:
  assumes "history_shape ns hist"
  shows "''version_id'' \<notin> set ns" "''version_created_at'' \<notin> set ns" "''version_operation'' \<notin> set ns"
    "distinct ns"
proof -
  have "distinct (version_names @ ns)"
    using assms shape_names[OF assms] by (simp add: history_shape_def)
  then show "''version_id'' \<notin> set ns" "''version_created_at'' \<notin> set ns"
    "''version_operation'' \<notin> set ns" "distinct ns"
    by (auto simp: version_names_def)
qed

lemma new_row_cell:
  assumes "col_constraint cd = Unconstrained" and "col_name cd \<noteq> k0"
  shows "(case map_of ((k0, v0) # vals) (col_name cd) of
            None \<Rightarrow> default_value db r cd
          | Some v \<Rightarrow>
              if v = VNull \<and> col_constraint cd = PrimaryKeyAutoincrement
              then VInt (seq r + 1) else stored db r (col_name cd) v)
         = property (stored_object db r vals) (col_name cd)"
proof (cases "map_of vals (col_name cd)")
  case None
  then show ?thesis
    unfolding property_stored_object
    using assms by (simp add: default_value_def property_def stored_null)
next
  case (Some v)
  then show ?thesis
    unfolding property_stored_object
    using assms by (simp add: property_def)
qed

lemma new_row_unconstrained:
  assumes "list_all (\<lambda>cd. col_constraint cd = Unconstrained) defs"
    and "k0 \<notin> set (map col_name defs)"
  shows "map (\<lambda>cd. (col_name cd,
           (case map_of ((k0, v0) # vals) (col_name cd) of
              None \<Rightarrow> default_value db r cd
            | Some v \<Rightarrow>
                if v = VNull \<and> col_constraint cd = PrimaryKeyAutoincrement
                then VInt (seq r + 1) else stored db r (col_name cd) v))) defs
         = map (\<lambda>k. (k, property (stored_object db r vals) k)) (map col_name defs)"
proof -
  have "map (\<lambda>cd. (col_name cd,
           (case map_of ((k0, v0) # vals) (col_name cd) of
              None \<Rightarrow> default_value db r cd
            | Some v \<Rightarrow>
                if v = VNull \<and> col_constraint cd = PrimaryKeyAutoincrement
                then VInt (seq r + 1) else stored db r (col_name cd) v))) defs
        = map (\<lambda>cd. (col_name cd, property (stored_object db r vals) (col_name cd))) defs"
  proof (rule map_cong[OF refl])
    fix cd assume "cd \<in> set defs"
    then have "col_constraint cd = Unconstrained" "col_name cd \<noteq> k0"
      using assms by (auto simp: list_all_iff)
    then have "(case map_of ((k0, v0) # vals) (col_name cd) of
              None \<Rightarrow> default_value db r cd
            | Some v \<Rightarrow>
                if v = VNull \<and> col_constraint cd = PrimaryKeyAutoincrement
                then VInt (seq r + 1) else stored db r (col_name cd) v)
        = property (stored_object db r vals) (col_name cd)"
      by (rule new_row_cell)
    then show "(col_name cd,
           (case map_of ((k0, v0) # vals) (col_name cd) of
              None \<Rightarrow> default_value db r cd
            | Some v \<Rightarrow>
                if v = VNull \<and> col_constraint cd = PrimaryKeyAutoincrement
                then VInt (seq r + 1) else stored db r (col_name cd) v))
        = (col_name cd, property (stored_object db r vals) (col_name cd))"
      by (simp only:)
  qed
  then show ?thesis by (simp add: comp_def)
qed

lemma shape_operation_type:
  assumes "history_shape ns hist"
  shows "stored db hist ''version_operation'' (VText s) = VText s"
proof -
  have "column_type hist ''version_operation'' = TEXT"
    unfolding column_type_def
    by (subst shape_columns[OF assms]) (simp add: version_columns_def)
  then show ?thesis by (simp add: stored_def affinity_def)
qed

lemma new_row_version:
  assumes sh: "history_shape ns hist"
    and sub: "set (map fst vals) \<subseteq> set ns"
  shows "new_row db hist ((''version_operation'', VText (operation_text operation)) # vals)
         = version_row db hist operation (stored_object db hist vals) ns"
proof -
  let ?defs = "drop 3 (columns hist)"
  have cols: "columns hist = version_columns @ ?defs" by (rule shape_columns[OF sh])
  have names: "map col_name ?defs = ns" using sh by (simp add: history_shape_def)
  have un: "list_all (\<lambda>cd. col_constraint cd = Unconstrained) ?defs"
    using sh by (simp add: history_shape_def)
  have f1: "map_of vals ''version_id'' = None" "map_of vals ''version_created_at'' = None"
    using shape_fresh[OF sh] sub by (auto simp: map_of_eq_None_iff)
  have f3: "''version_operation'' \<notin> set (map col_name ?defs)"
    using shape_fresh[OF sh] names by simp
  show ?thesis
    unfolding new_row_def version_row_def
    apply (subst cols)
    apply (simp only: map_append new_row_unconstrained[OF un f3] names)
    apply (simp add: version_columns_def default_value_def f1 shape_operation_type[OF sh])
    done
qed


lemma version_row_props:
  "property (version_row db hist operation vals ns) ''version_id'' = VInt (seq hist + 1)"
  "property (version_row db hist operation vals ns) ''version_created_at'' = VText (clock db)"
  "property (version_row db hist operation vals ns) ''version_operation'' = VText (operation_text operation)"
  "map fst (version_row db hist operation vals ns) = version_names @ ns"
  by (simp_all add: version_row_def property_def version_names_def comp_def)

lemma operation_text_allowed: "operation_text operation \<in> set [''INSERT'', ''UPDATE'', ''DELETE'']"
  by (cases operation) simp_all

lemma below_seq_mono: "below_seq s v \<Longrightarrow> s \<le> s' \<Longrightarrow> below_seq s' v"
  by (cases v) (auto simp: below_seq_def)

lemma below_seq_fresh:
  assumes "list_all (\<lambda>row. below_seq s (property row k)) rs"
  shows "VInt (s + 1) \<notin> set (map (\<lambda>row. property row k) rs)"
proof
  assume "VInt (s + 1) \<in> set (map (\<lambda>row. property row k) rs)"
  then obtain row where "row \<in> set rs" "property row k = VInt (s + 1)" by auto
  with assms have "below_seq s (VInt (s + 1))" by (auto simp: list_all_iff)
  then show False by (simp add: below_seq_def)
qed

lemma row_ok_columns: "columns r' = columns r \<Longrightarrow> row_ok r' = row_ok r"
  by (rule ext) (simp add: row_ok_def column_names_def)

lemma integrity_version_row:
  assumes sh: "history_shape ns hist" and int: "integrity hist"
  shows "integrity (hist\<lparr>rows := rows hist @ [version_row db hist operation vals ns],
                         seq := seq hist + 1\<rparr>)"
proof -
  let ?vr = "version_row db hist operation vals ns"
  let ?r = "hist\<lparr>rows := rows hist @ [?vr], seq := seq hist + 1\<rparr>"
  let ?defs = "drop 3 (columns hist)"
  have cols: "columns hist = version_columns @ ?defs" by (rule shape_columns[OF sh])
  have un: "list_all (\<lambda>cd. col_constraint cd = Unconstrained) ?defs"
    using sh by (simp add: history_shape_def)
  have old: "list_all (row_ok ?r) (rows hist)"
    using int by (simp add: integrity_def row_ok_columns[of ?r hist])
  have acc_v: "list_all (\<lambda>cd. accepts (col_constraint cd) (property ?vr (col_name cd))) version_columns"
    using operation_text_allowed[of operation]
    by (simp add: version_columns_def version_row_props)
  have acc_d: "list_all (\<lambda>cd. accepts (col_constraint cd) (property ?vr (col_name cd))) ?defs"
    using un by (auto simp: list_all_iff)
  have "list_all (\<lambda>cd. accepts (col_constraint cd) (property ?vr (col_name cd))) (columns hist)"
    by (subst cols) (simp only: list_all_append acc_v acc_d)
  then have new: "row_ok ?r ?vr"
    using shape_names[OF sh] by (simp add: row_ok_def version_row_props column_names_def)
  have kc: "key_columns ?r = [''version_id'']"
    using shape_key_columns[OF sh] by (simp add: key_columns_def)
  have kold: "key_ok hist ''version_id''"
    using int shape_key_columns[OF sh] by (simp add: integrity_def)
  have b: "list_all (\<lambda>row. below_seq (seq hist) (property row ''version_id'')) (rows hist)"
    using kold by (simp add: key_ok_def)
  then have b': "list_all (\<lambda>row. below_seq (seq hist + 1) (property row ''version_id'')) (rows hist)"
    by (auto simp: list_all_iff intro: below_seq_mono)
  have "key_ok ?r ''version_id''"
    using kold below_seq_fresh[OF b] b'
    by (simp add: key_ok_def version_row_props below_seq_def)
  with old new kc show ?thesis by (simp add: integrity_def)
qed

lemma recordVersion_appends:
  assumes rel: "relations (sqlite c) (tableName @ historyTableSuffix (config c)) = Some hist"
    and sh: "history_shape ns hist" and int: "integrity hist"
    and sub: "set (map fst vals) \<subseteq> set ns"
  shows "recordVersion tableName vals operation c =
     (Inr (), c\<lparr>sqlite := (sqlite c)\<lparr>relations :=
        (relations (sqlite c))(tableName @ historyTableSuffix (config c) \<mapsto>
           hist\<lparr>rows := rows hist @ [version_row (sqlite c) hist operation (stored_object (sqlite c) hist vals) ns],
                seq := seq hist + 1\<rparr>)\<rparr>\<rparr>)"
proof -
  let ?ob = "(''version_operation'', VText (operation_text operation)) # vals"
  have known: "unknown_column hist (map fst ?ob) = None"
    using sub shape_names[OF sh] by (auto simp: unknown_column_None version_names_def)
  have row: "new_row (sqlite c) hist ?ob = version_row (sqlite c) hist operation (stored_object (sqlite c) hist vals) ns"
    by (rule new_row_version[OF sh sub])
  have bump: "bump_seq (key_columns hist) (version_row (sqlite c) hist operation (stored_object (sqlite c) hist vals) ns) (seq hist)
              = seq hist + 1"
    by (simp add: shape_key_columns[OF sh] bump_seq_def version_row_props)
  have ins: "sql_insert (tableName @ historyTableSuffix (config c)) ?ob (sqlite c) =
     Inr ((sqlite c)\<lparr>relations :=
        (relations (sqlite c))(tableName @ historyTableSuffix (config c) \<mapsto>
           hist\<lparr>rows := rows hist @ [version_row (sqlite c) hist operation (stored_object (sqlite c) hist vals) ns],
                seq := seq hist + 1\<rparr>)\<rparr>)"
    unfolding sql_insert_def
    by (simp only: rel known row bump Let_def integrity_version_row[OF sh int]
          option.case if_True if_False list.distinct)
  show ?thesis
    unfolding recordVersion_def Let_def zip_keys_values
    by (simp only: ins sum.case)
qed

lemma shape_neq: "history_shape (column_names live) hist \<Longrightarrow> live \<noteq> hist"
proof
  assume sh: "history_shape (column_names live) hist" and eq: "live = hist"
  have "length (column_names hist) = length (version_names @ column_names live)"
    by (simp only: shape_names[OF sh])
  then show False using eq by (simp add: version_names_def)
qed

lemma shape_table_neq:
  assumes "relations db t = Some live" "relations db h = Some hist"
    "history_shape (column_names live) hist"
  shows "t \<noteq> h"
  using assms shape_neq by fastforce

lemma rest_version_row:
  assumes "history_shape ns hist"
  shows "rest_without version_names (version_row db hist operation vals ns)
         = map (\<lambda>k. (k, property vals k)) ns"
proof -
  have "filter (\<lambda>(k, v). k \<notin> set version_names) (map (\<lambda>k. (k, property vals k)) ns)
        = map (\<lambda>k. (k, property vals k)) ns"
    using shape_fresh[OF assms] by (auto simp: filter_id_conv version_names_def)
  then show ?thesis
    by (simp add: rest_without_def version_row_def version_names_def)
qed

lemma property_map_keys:
  "k \<in> set ns \<Longrightarrow> property (xs @ map (\<lambda>k. (k, f k)) ns) k = (if k \<in> set (map fst xs) then property xs k else f k)"
  by (induction xs) (auto simp: property_def map_of_map_restrict split: option.splits)

lemma version_row_attr:
  assumes sh: "history_shape ns hist" and k: "k \<in> set ns"
  shows "property (version_row db hist operation vals ns) k = property vals k"
proof -
  have "k \<notin> set version_names" using shape_fresh[OF sh] k by (auto simp: version_names_def)
  then show ?thesis
    using property_map_keys[OF k, of "[(''version_id'', VInt (seq hist + 1)),
      (''version_created_at'', VText (clock db)),
      (''version_operation'', VText (operation_text operation))]" "property vals"]
    by (simp add: version_row_def version_names_def)
qed

lemma map_of_by_name:
  "k \<in> set (map col_name cds) \<Longrightarrow>
   \<exists>cd\<in>set cds. col_name cd = k \<and> map_of (map (\<lambda>cd. (col_name cd, g cd)) cds) k = Some (g cd)"
  by (induction cds) auto

lemma new_row_supplied:
  assumes "(k, v) \<in> set vals" "distinct (map fst vals)" "k \<in> set (column_names r)" "v \<noteq> VNull"
  shows "property (new_row db r vals) k = stored db r k v"
proof -
  have m: "map_of vals k = Some v" using assms by (simp add: map_of_is_SomeI)
  let ?g = "\<lambda>cd. (case map_of vals (col_name cd) of
              None \<Rightarrow> default_value db r cd
            | Some v \<Rightarrow>
                if v = VNull \<and> col_constraint cd = PrimaryKeyAutoincrement
                then VInt (seq r + 1) else stored db r (col_name cd) v)"
  from assms(3) obtain cd where cd: "col_name cd = k"
    "map_of (map (\<lambda>cd. (col_name cd, ?g cd)) (columns r)) k = Some (?g cd)"
    using map_of_by_name[of k "columns r" ?g] by (auto simp: column_names_def)
  have "?g cd = stored db r k v" using cd(1) m assms(4) by simp
  with cd(2) show ?thesis by (simp add: property_def new_row_def)
qed

lemma property_absent: "k \<notin> set (map fst ob) \<Longrightarrow> property ob k = VNull"
  by (simp add: property_def map_of_eq_None_iff[THEN iffD2])

lemma sql_insert_accepted:
  assumes "sql_insert t vs db = Inr db'" and "relations db t = Some r"
  shows "vs \<noteq> []" "set (map fst vs) \<subseteq> set (column_names r)"
    "db' = db\<lparr>relations := (relations db)(t \<mapsto>
             r\<lparr>rows := rows r @ [new_row db r vs],
               seq := bump_seq (key_columns r) (new_row db r vs) (seq r)\<rparr>)\<rparr>"
    "clock db' = clock db" "stored db' = stored db" "stored_object db' = stored_object db"
proof -
  show ne: "vs \<noteq> []" using assms by (auto simp: sql_insert_def)
  have u: "unknown_column r (map fst vs) = None"
    using assms ne by (auto simp: sql_insert_def split: option.splits)
  then show "set (map fst vs) \<subseteq> set (column_names r)" by (simp only: unknown_column_None)
  show e: "db' = db\<lparr>relations := (relations db)(t \<mapsto>
             r\<lparr>rows := rows r @ [new_row db r vs],
               seq := bump_seq (key_columns r) (new_row db r vs) (seq r)\<rparr>)\<rparr>"
    using assms ne u by (auto simp: sql_insert_def Let_def split: if_splits)
  show "clock db' = clock db" by (simp add: e)
  show "stored db' = stored db" by (rule stored_same_conversions) (simp_all add: e)
  show "stored_object db' = stored_object db"
    by (rule stored_object_same_conversions) (simp_all add: e)
qed


subsection \<open>Facts of the running example\<close>

lemma example_database_simps:
  "relations (example_database live hist) ''users'' = Some live"
  "relations (example_database live hist) ''users_history'' = Some hist"
  "clock (example_database live hist) = ''now''"
  "text_of_number (example_database live hist) = example_text_of_number"
  "number_of_text (example_database live hist) = example_number_of_text"
  "(example_database live hist)\<lparr>relations :=
      (relations (example_database live hist))(''users'' \<mapsto> live')\<rparr> = example_database live' hist"
  "(example_database live hist)\<lparr>relations :=
      (relations (example_database live hist))(''users_history'' \<mapsto> hist')\<rparr> = example_database live hist'"
  by (auto simp: example_database_def fun_eq_iff)

lemma example_texts:
  "example_text_of_number 0 = ''0.0''"
  "example_text_of_number 1 = ''1.0''"
  "example_number_of_text ''1.0'' = Some 1"
  "example_number_of_text ''0.0'' = Some 0"
  by (simp_all add: example_text_of_number_def digits.simps[of 0] digits.simps[of "Suc 0"]
        example_number_of_text_def decimal_value_def is_digits_def digits_value_def)

lemma example_engine_simps:
  "config (example_engine live hist) = example_config"
  "versionedTables (example_engine live hist) ''users'' = Some example_versioned"
  "sqlite (example_engine live hist) = example_database live hist"
  "(example_engine live hist)\<lparr>sqlite := example_database live' hist'\<rparr> = example_engine live' hist'"
  "historyTableSuffix example_config = ''_history''"
  by (simp_all add: example_engine_def example_config_def)

lemmas example_defs =
  example_empty_def example_busy_def example_engine_simps example_database_simps
  example_live_def example_history_def
  example_row_def example_version_def example_versions_def

lemmas store_defs =
  sql_insert_def sql_update_def sql_select_def sql_delete_def sql_select_order_by_def
  statement_get_def matches_def sql_eq_def assign_def unknown_column_def column_names_def
  new_row_def default_value_def bump_seq_def key_columns_def integrity_def row_ok_def
  key_ok_def below_seq_def property_def version_columns_def
  stored_def column_type_def affinity_def

lemma example_empty_shape:
  "history_shape (column_names (example_live rs s)) (example_history vs n)"
  by (simp add: history_shape_def example_defs column_names_def version_columns_def)

lemma example_empty_integrity: "integrity (example_history [] 0)"
  by (simp add: example_defs store_defs)







lemma sql_select_rows:
  assumes "relations db t = Some r" "wh \<noteq> []" "set (map fst wh) \<subseteq> set (column_names r)"
  shows "sql_select t wh db = Inr (filter (matches wh) (rows r))"
  using assms by (simp add: sql_select_def unknown_column_None[THEN iffD2])




lemma update_not_found:
  assumes reg: "versionedTables c tableName = Some vt"
    and live: "relations (sqlite c) tableName = Some live"
    and wh: "wh \<noteq> []" "set (object_keys wh) \<subseteq> set (column_names live)"
    and none: "find (matches wh) (rows live) = None"
  shows "update tableName vals wh c = (Inl RecordNotFound, c)"
proof -
  have "sql_select tableName wh (sqlite c) = Inr (filter (matches wh) (rows live))"
    using live wh by (simp add: sql_select_rows object_keys_def)
  then show ?thesis
    unfolding update_def
    by (simp only: reg option.case sum.case statement_get_filter none)
qed


lemma example_busy_facts:
  "versionedTables example_busy ''users'' = Some example_versioned"
  "relations (sqlite example_busy) ''users'' = Some (example_live [example_row 1 ''V3''] 1)"
  "relations (sqlite example_busy) (''users'' @ historyTableSuffix (config example_busy))
     = Some (example_history example_versions 3)"
  "integrity (example_history example_versions 3)"
  "integrity (example_live [example_row 1 ''V3''] 1)"
  by (simp_all add: example_defs store_defs)





lemma matches_version_id:
  "matches [(''version_id'', VInt n)] row \<longleftrightarrow> property row ''version_id'' = VInt n"
  by (auto simp: matches_def sql_eq_def)

lemma getVersion_find:
  assumes "relations (sqlite c) (tableName @ historyTableSuffix (config c)) = Some hist"
    and "''version_id'' \<in> set (column_names hist)"
  shows "getVersion tableName n c = Inr (find (matches [(''version_id'', VInt n)]) (rows hist))"
  using assms
  by (simp add: getVersion_def sql_select_rows statement_get_filter)

lemma rollback_delegates:
  assumes reg: "versionedTables c tableName = Some vt"
    and hist: "relations (sqlite c) (tableName @ historyTableSuffix (config c)) = Some hist"
    and col: "''version_id'' \<in> set (column_names hist)"
    and ver: "find (matches [(''version_id'', VInt n)]) (rows hist) = Some version"
  shows "rollback tableName \<lparr>versionId = n, where_option = wh\<rparr> c =
         update tableName (rest_without version_names version) wh c"
  unfolding rollback_def
  by (simp add: reg getVersion_find[OF hist col] ver version_names_def)









lemma example_deleted_facts:
  "versionedTables example_deleted ''users'' = Some example_versioned"
  "relations (sqlite example_deleted) ''users'' = Some (example_live [] 1)"
  "relations (sqlite example_deleted) (''users'' @ historyTableSuffix (config example_deleted))
     = Some (example_history (example_versions @ [example_version 4 ''DELETE'' (VInt 1) ''V3'']) 4)"
  by (simp_all add: example_deleted_def example_defs)

lemma example_history_version_id:
  "''version_id'' \<in> set (column_names (example_history vs n))"
  by (simp add: example_history_def column_names_def version_columns_def)

lemma insort_key_before_last:
  "f x < f v \<Longrightarrow> insort_key f x (ys @ [v]) = insort_key f x ys @ [v]"
  by (induction ys) auto

lemma sort_key_snoc_aux:
  "\<forall>x \<in> set xs. f x < f v \<Longrightarrow>
   foldr (insort_key f) xs [v] = foldr (insort_key f) xs [] @ [v]"
  by (induction xs) (auto simp: insort_key_before_last)

lemma sort_key_snoc:
  "\<forall>x \<in> set xs. f x < f v \<Longrightarrow> sort_key f (xs @ [v]) = sort_key f xs @ [v]"
  by (simp add: sort_key_def sort_key_snoc_aux)

lemma val_key_int_less: "val_key (VInt a) < val_key (VInt b) \<longleftrightarrow> a < b"
  by simp

lemma key_ok_cell:
  assumes "key_ok r k" "row \<in> set (rows r)"
  shows "\<exists>n. property row k = VInt n \<and> n \<le> seq r"
  using assms by (cases "property row k") (auto simp: key_ok_def list_all_iff below_seq_def)

lemma integrity_key:
  "integrity r \<Longrightarrow> k \<in> set (key_columns r) \<Longrightarrow> key_ok r k"
  by (simp add: integrity_def list_all_iff)

lemma sorted_by_version_id:
  assumes ko: "key_ok r ''version_id''"
  shows "sorted_wrt (\<lambda>a b. version_id_of a < version_id_of b)
           (sort_key (\<lambda>row. val_key (property row ''version_id'')) (filter P (rows r)))"
proof -
  let ?f = "\<lambda>row. val_key (property row ''version_id'')"
  let ?xs = "filter P (rows r)"
  let ?vs = "sort_key ?f ?xs"
  have inj_val: "inj_on val_key (set (map (\<lambda>row. property row ''version_id'') ?xs))"
  proof (rule inj_onI)
    fix a b
    assume "a \<in> set (map (\<lambda>row. property row ''version_id'') ?xs)"
      and "b \<in> set (map (\<lambda>row. property row ''version_id'') ?xs)"
    then obtain n m where "a = VInt n" "b = VInt m"
      using key_ok_cell[OF ko] by fastforce
    moreover assume "val_key a = val_key b"
    ultimately show "a = b" by simp
  qed
  have "distinct (map (\<lambda>row. property row ''version_id'') (rows r))"
    using ko by (simp add: key_ok_def)
  then have "distinct (map (\<lambda>row. property row ''version_id'') ?xs)"
    by (rule distinct_map_filter)
  then have "distinct (map val_key (map (\<lambda>row. property row ''version_id'') ?xs))"
    using inj_val by (simp only: distinct_map)
  then have dx: "distinct (map ?f ?xs)" by (simp add: comp_def)
  then have "distinct ?xs" "inj_on ?f (set ?xs)" by (simp_all add: distinct_map)
  then have "distinct (map ?f ?vs)" by (simp add: distinct_map)
  moreover have "sorted (map ?f ?vs)" by (rule sorted_sort_key)
  ultimately have "sorted_wrt (<) (map ?f ?vs)" by (simp add: strict_sorted_iff)
  then have s: "sorted_wrt (\<lambda>a b. ?f a < ?f b) ?vs" by (simp add: sorted_wrt_map)
  have "version_id_of a < version_id_of b"
    if "a \<in> set ?vs" "b \<in> set ?vs" "?f a < ?f b" for a b
  proof -
    from that(1,2) have "a \<in> set (rows r)" "b \<in> set (rows r)" by simp_all
    then obtain n m where "property a ''version_id'' = VInt n" "property b ''version_id'' = VInt m"
      using key_ok_cell[OF ko] by blast
    with that(3) show ?thesis by (simp add: version_id_of_def)
  qed
  with s show ?thesis by (rule sorted_wrt_mono_rel[rotated])
qed

lemma getVersions_rows:
  assumes hist: "relations (sqlite c) (tableName @ historyTableSuffix (config c)) = Some hist"
    and key: "''version_id'' \<in> set (column_names hist)"
    and wh: "wh \<noteq> []" "set (object_keys wh) \<subseteq> set (column_names hist)"
  shows "getVersions tableName wh c =
     Inr (sort_key (\<lambda>row. val_key (property row ''version_id'')) (filter (matches wh) (rows hist)))"
proof -
  have "unknown_column hist (map fst wh @ [''version_id'']) = None"
    using key wh(2) by (simp add: unknown_column_None object_keys_def)
  then show ?thesis
    using hist wh(1) by (simp add: getVersions_def sql_select_order_by_def)
qed

lemma key_column_is_column: "k \<in> set (key_columns r) \<Longrightarrow> k \<in> set (column_names r)"
  by (auto simp: key_columns_def column_names_def)

lemma sql_insert_integrity:
  assumes "sql_insert t vs db = Inr db'" and "relations db t = Some r"
  shows "integrity (r\<lparr>rows := rows r @ [new_row db r vs],
                      seq := bump_seq (key_columns r) (new_row db r vs) (seq r)\<rparr>)"
  using assms
  by (auto simp: sql_insert_def Let_def split: if_splits option.splits)

lemma recordVersion_accepted:
  assumes rv: "recordVersion tableName vals operation c = (Inr (), c')"
  shows "\<exists>db. sql_insert (tableName @ historyTableSuffix (config c))
                 ((''version_operation'', VText (operation_text operation)) # vals) (sqlite c) = Inr db
              \<and> c' = c\<lparr>sqlite := db\<rparr>"
  using rv unfolding recordVersion_def Let_def zip_keys_values
  by (auto split: sum.splits)

lemma default_key_value:
  assumes "default_value db r cd = VInt m"
  shows "m = seq r + 1"
  using assms by (cases "col_constraint cd") (simp_all add: default_value_def)

lemma recordVersion_new_key:
  assumes rv: "recordVersion tableName vals operation c = (Inr (), c')"
    and hist: "relations (sqlite c) (tableName @ historyTableSuffix (config c)) = Some hist"
    and key: "''version_id'' \<in> set (key_columns hist)"
    and nk: "''version_id'' \<notin> set (object_keys vals)"
  shows "\<exists>v s. c' = c\<lparr>sqlite := (sqlite c)\<lparr>relations :=
             (relations (sqlite c))(tableName @ historyTableSuffix (config c) \<mapsto>
                hist\<lparr>rows := rows hist @ [v], seq := s\<rparr>)\<rparr>\<rparr>
           \<and> property v ''version_id'' = VInt (seq hist + 1)"
proof -
  let ?h = "tableName @ historyTableSuffix (config c)"
  let ?ob = "(''version_operation'', VText (operation_text operation)) # vals"
  let ?v = "new_row (sqlite c) hist ?ob"
  let ?s = "bump_seq (key_columns hist) ?v (seq hist)"
  let ?r = "hist\<lparr>rows := rows hist @ [?v], seq := ?s\<rparr>"
  from recordVersion_accepted[OF rv] obtain db
    where ins: "sql_insert ?h ?ob (sqlite c) = Inr db" and c': "c' = c\<lparr>sqlite := db\<rparr>"
    by blast
  note a = sql_insert_accepted[OF ins hist]
  have int': "integrity ?r" by (rule sql_insert_integrity[OF ins hist])
  have "''version_id'' \<in> set (key_columns ?r)" using key by (simp add: key_columns_def)
  then have ko: "key_ok ?r ''version_id''" by (rule integrity_key[OF int'])
  have "?v \<in> set (rows ?r)" by simp
  from key_ok_cell[OF ko this] obtain m where m: "property ?v ''version_id'' = VInt m" by blast
  let ?g = "\<lambda>cd. (case map_of ?ob (col_name cd) of
              None \<Rightarrow> default_value (sqlite c) hist cd
            | Some v \<Rightarrow>
                if v = VNull \<and> col_constraint cd = PrimaryKeyAutoincrement
                then VInt (seq hist + 1) else stored (sqlite c) hist (col_name cd) v)"
  have "''version_id'' \<in> set (map col_name (columns hist))"
    using key_column_is_column[OF key] by (simp add: column_names_def)
  from map_of_by_name[OF this, of ?g] obtain cd where cd: "col_name cd = ''version_id''"
    "map_of (map (\<lambda>cd. (col_name cd, ?g cd)) (columns hist)) ''version_id'' = Some (?g cd)"
    by blast
  have none: "map_of ?ob ''version_id'' = None"
    using nk by (simp add: object_keys_def map_of_eq_None_iff)
  have "property ?v ''version_id'' = default_value (sqlite c) hist cd"
    using cd none by (simp add: property_def new_row_def)
  with m have "m = seq hist + 1" by (simp add: default_key_value)
  with m have "property ?v ''version_id'' = VInt (seq hist + 1)" by simp
  moreover have "c' = c\<lparr>sqlite := (sqlite c)\<lparr>relations :=
             (relations (sqlite c))(?h \<mapsto> hist\<lparr>rows := rows hist @ [?v], seq := ?s\<rparr>)\<rparr>\<rparr>"
    by (simp add: c' a(3))
  ultimately show ?thesis by blast
qed

lemma example_history_key:
  "''version_id'' \<in> set (key_columns (example_history vs n))"
  by (simp add: example_history_def key_columns_def version_columns_def)

lemma filter_named_Cons:
  "filter (\<lambda>(key, value). has_name value) ((key, Object (Some n) dt ct) # tbl)
     = (key, Object (Some n) dt ct) # filter (\<lambda>(key, value). has_name value) tbl"
  "filter (\<lambda>(key, value). has_name value) ((key, Object None dt ct) # tbl)
     = filter (\<lambda>(key, value). has_name value) tbl"
  "filter (\<lambda>(key, value). has_name value) ((key, Primitive) # tbl)
     = filter (\<lambda>(key, value). has_name value) tbl"
  by simp_all

lemma columnDefs_never_throw:
  "map_throwing columnDef (filter (\<lambda>(key, value). has_name value) tbl) = Inr (live_columns tbl)"
  by (induction tbl rule: live_columns.induct) (simp_all add: filter_named_Cons)

lemma first_duplicate_None: "first_duplicate ks = None \<longleftrightarrow> distinct ks"
  by (induction ks) auto

lemma createHistoryTable_result:
  "createHistoryTable tableName tbl c =
     (if live_columns tbl = [] then (Inl (SqliteError SyntaxError), c)
      else case sql_create_table_if_not_exists (tableName @ historyTableSuffix (config c))
                  (version_columns @ live_columns tbl) (sqlite c) of
             Inl e \<Rightarrow> (Inl (SqliteError e), c)
           | Inr db \<Rightarrow> (Inr (), c\<lparr>sqlite := db\<rparr>))"
  by (simp add: createHistoryTable_def Let_def columnDefs_never_throw)

lemma live_columns_filter:
  "live_columns (filter (\<lambda>(key, value). has_name value) tbl) = live_columns tbl"
  by (induction tbl rule: live_columns.induct) simp_all

lemma live_columns_unconstrained:
  "list_all (\<lambda>cd. col_constraint cd = Unconstrained) (live_columns tbl)"
  by (induction tbl rule: live_columns.induct) simp_all

lemma version_columns_names: "map col_name version_columns = version_names"
  by (simp add: version_columns_def version_names_def)

lemma registerTable_creates:
  assumes auto: "autoCreateHistoryTables (config c)"
    and fresh: "relations (sqlite c) (tableName @ historyTableSuffix (config c)) = None"
    and ne: "live_columns tbl \<noteq> []"
    and d: "distinct (version_names @ map col_name (live_columns tbl))"
  shows "registerTable tbl tableName c =
     (Inr \<lparr>table = tbl, historyTableName = tableName @ historyTableSuffix (config c),
            table_config = config c\<rparr>,
      c\<lparr>versionedTables := (versionedTables c)(tableName \<mapsto>
           \<lparr>table = tbl, historyTableName = tableName @ historyTableSuffix (config c),
            table_config = config c\<rparr>),
        sqlite := (sqlite c)\<lparr>relations := (relations (sqlite c))
           (tableName @ historyTableSuffix (config c) \<mapsto>
              \<lparr>columns = version_columns @ live_columns tbl, rows = [], seq = 0\<rparr>)\<rparr>\<rparr>)"
proof -
  have "first_duplicate (map col_name (version_columns @ live_columns tbl)) = None"
    using d by (simp add: first_duplicate_None version_columns_names)
  then show ?thesis
    using auto fresh ne
    by (simp add: registerTable_def Let_def createHistoryTable_result
          sql_create_table_if_not_exists_def)
qed

lemma example_new_facts:
  "autoCreateHistoryTables (config example_new)"
  "relations (sqlite example_new) (''users'' @ historyTableSuffix (config example_new)) = None"
  "historyTableSuffix (config example_new) = ''_history''"
  "config example_new = example_config"
  by (simp_all add: example_new_def example_defaults_def Chronicle_def example_config_def)

lemma example_table_columns:
  "live_columns example_table =
     [\<lparr>col_name = ''id'', col_type = INTEGER, col_constraint = Unconstrained\<rparr>,
      \<lparr>col_name = ''name'', col_type = TEXT, col_constraint = Unconstrained\<rparr>]"
  "live_columns example_nameless =
     [\<lparr>col_name = ''name'', col_type = TEXT, col_constraint = Unconstrained\<rparr>]"
  by (simp_all add: example_table_def example_nameless_def sqliteType_def)

lemma getVersions_store_error:
  "getVersions tableName wh c \<noteq> Inl (NotRegistered t)"
  by (simp add: getVersions_def Let_def split: sum.splits)

lemma getVersion_store_error:
  "getVersion tableName n c \<noteq> Inl (NotRegistered t)"
  by (simp add: getVersion_def Let_def split: sum.splits)

lemma example_unregistered_facts:
  "versionedTables example_unregistered ''users'' = None"
  "config example_unregistered = example_config"
  "sqlite example_unregistered = example_database (example_live [example_row 1 ''V3''] 1)
                  (example_history example_versions 3)"
  by (simp_all add: example_unregistered_def example_defaults_def Chronicle_def example_config_def)

text \<open>
  The states of the running example are those the engine reaches: registering the table,
  inserting record 1, updating it twice, deleting it.
\<close>

lemma example_run:
  "registerTable example_table ''users'' example_new = (Inr example_versioned, example_empty)"
  "insert_record ''users'' (example_row 1 ''V1'') example_empty =
     (Inr (), example_engine (example_live [example_row 1 ''V1''] 1)
                (example_history [example_version 1 ''INSERT'' (VInt 1) ''V1''] 1))"
  "update ''users'' [(''name'', VText ''V2'')] [(''id'', VInt 1)]
     (example_engine (example_live [example_row 1 ''V1''] 1)
        (example_history [example_version 1 ''INSERT'' (VInt 1) ''V1''] 1)) =
     (Inr (), example_engine (example_live [example_row 1 ''V2''] 1)
                (example_history [example_version 1 ''INSERT'' (VInt 1) ''V1'',
                                  example_version 2 ''UPDATE'' (VInt 1) ''V2''] 2))"
  "update ''users'' [(''name'', VText ''V3'')] [(''id'', VInt 1)]
     (example_engine (example_live [example_row 1 ''V2''] 1)
        (example_history [example_version 1 ''INSERT'' (VInt 1) ''V1'',
                          example_version 2 ''UPDATE'' (VInt 1) ''V2''] 2)) =
     (Inr (), example_busy)"
  "delete ''users'' [(''id'', VInt 1)] example_busy = (Inr (), example_deleted)"
proof -
  show "registerTable example_table ''users'' example_new = (Inr example_versioned, example_empty)"
    using registerTable_creates[OF example_new_facts(1,2), of example_table]
    by (simp add: example_table_columns version_names_def example_new_facts(3,4)
          example_engine_simps(5) example_versioned_def example_empty_def example_engine_def
          example_database_def example_history_def)
       (simp add: example_new_def Chronicle_def example_defaults_def example_config_def)
  show "insert_record ''users'' (example_row 1 ''V1'') example_empty =
     (Inr (), example_engine (example_live [example_row 1 ''V1''] 1)
                (example_history [example_version 1 ''INSERT'' (VInt 1) ''V1''] 1))"
    by (simp add: insert_record_def recordVersion_def object_keys_def object_values_def
          example_defs store_defs)
  show "update ''users'' [(''name'', VText ''V2'')] [(''id'', VInt 1)]
     (example_engine (example_live [example_row 1 ''V1''] 1)
        (example_history [example_version 1 ''INSERT'' (VInt 1) ''V1''] 1)) =
     (Inr (), example_engine (example_live [example_row 1 ''V2''] 1)
                (example_history [example_version 1 ''INSERT'' (VInt 1) ''V1'',
                                  example_version 2 ''UPDATE'' (VInt 1) ''V2''] 2))"
    by (simp add: update_def recordVersion_def object_keys_def object_values_def spread_def
          example_defs store_defs)
  show "update ''users'' [(''name'', VText ''V3'')] [(''id'', VInt 1)]
     (example_engine (example_live [example_row 1 ''V2''] 1)
        (example_history [example_version 1 ''INSERT'' (VInt 1) ''V1'',
                          example_version 2 ''UPDATE'' (VInt 1) ''V2''] 2)) =
     (Inr (), example_busy)"
    by (simp add: update_def recordVersion_def object_keys_def object_values_def spread_def
          example_defs store_defs)
  show "delete ''users'' [(''id'', VInt 1)] example_busy = (Inr (), example_deleted)"
    by (simp add: delete_def recordVersion_def object_keys_def object_values_def
          example_deleted_def example_defs store_defs)
qed

text \<open>
  Why the claims below ask for a non-empty predicate and a non-empty value map: with an
  empty one the statement text is not SQL, and the store's error is what the caller sees.
\<close>

lemma empty_column_lists_are_rejected:
  assumes "versionedTables c tableName = Some vt"
  shows "insert_record tableName [] c = (Inl (SqliteError SyntaxError), c)"
    and "update tableName vals [] c = (Inl (SqliteError SyntaxError), c)"
    and "delete tableName [] c = (Inl (SqliteError SyntaxError), c)"
    and "getVersions tableName [] c = Inl (SqliteError SyntaxError)"
  using assms
  by (simp_all add: insert_record_def update_def delete_def getVersions_def object_keys_def
        sql_insert_def sql_select_def sql_select_order_by_def)

subsection \<open>Facts of the flags example\<close>

lemma example_flags_columns:
  "live_columns example_flags_table =
     [\<lparr>col_name = ''id'', col_type = INTEGER, col_constraint = Unconstrained\<rparr>,
      \<lparr>col_name = ''active'', col_type = TEXT, col_constraint = Unconstrained\<rparr>]"
  by (simp add: example_flags_table_def sqliteType_def)

lemma example_flags_database_simps:
  "relations (example_flags_database live hist) ''flags'' = Some live"
  "relations (example_flags_database live hist) ''flags_history'' = Some hist"
  "clock (example_flags_database live hist) = ''now''"
  "text_of_number (example_flags_database live hist) = example_text_of_number"
  "number_of_text (example_flags_database live hist) = example_number_of_text"
  "(example_flags_database live hist)\<lparr>relations :=
      (relations (example_flags_database live hist))(''flags'' \<mapsto> live')\<rparr>
     = example_flags_database live' hist"
  "(example_flags_database live hist)\<lparr>relations :=
      (relations (example_flags_database live hist))(''flags_history'' \<mapsto> hist')\<rparr>
     = example_flags_database live hist'"
  by (auto simp: example_flags_database_def fun_eq_iff)

lemma example_flags_engine_simps:
  "config (example_flags_engine live hist) = example_config"
  "versionedTables (example_flags_engine live hist) ''flags'' =
     Some \<lparr>table = example_flags_table, historyTableName = ''flags_history'',
           table_config = example_config\<rparr>"
  "sqlite (example_flags_engine live hist) = example_flags_database live hist"
  "(example_flags_engine live hist)\<lparr>sqlite := example_flags_database live' hist'\<rparr>
     = example_flags_engine live' hist'"
  by (simp_all add: example_flags_engine_def)

lemmas example_flags_defs =
  example_flags_empty_def example_flags_busy_def example_flags_engine_simps
  example_flags_database_simps example_flags_live_def example_flags_history_def
  example_flags_columns example_flag_def example_flag_version_def example_engine_simps(5)
  example_texts

lemma example_flags_registered:
  "registerTable example_flags_table ''flags'' example_flags_new =
     (Inr \<lparr>table = example_flags_table, historyTableName = ''flags_history'',
            table_config = example_config\<rparr>, example_flags_empty)"
proof -
  have f: "autoCreateHistoryTables (config example_flags_new)"
    "relations (sqlite example_flags_new) (''flags'' @ historyTableSuffix (config example_flags_new)) = None"
    "historyTableSuffix (config example_flags_new) = ''_history''"
    "config example_flags_new = example_config"
    by (simp_all add: example_flags_new_def example_defaults_def Chronicle_def example_config_def)
  have ne: "live_columns example_flags_table \<noteq> []" by (simp add: example_flags_columns)
  have d: "distinct (version_names @ map col_name (live_columns example_flags_table))"
    by (simp add: example_flags_columns version_names_def)
  show ?thesis
    unfolding registerTable_creates[OF f(1) f(2) ne d]
    by (simp add: f(3,4) example_flags_empty_def example_flags_engine_def
          example_flags_database_def example_flags_history_def example_flags_live_def)
       (simp add: example_flags_new_def Chronicle_def example_defaults_def example_config_def
          example_flags_live_def)
qed

lemma example_flags_shape:
  "history_shape (column_names (example_flags_live rs s)) (example_flags_history vs n)"
  by (simp add: history_shape_def example_flags_defs column_names_def version_columns_def)

lemma example_flags_facts:
  "versionedTables example_flags_busy ''flags'' =
     Some \<lparr>table = example_flags_table, historyTableName = ''flags_history'',
           table_config = example_config\<rparr>"
  "relations (sqlite example_flags_busy) ''flags'' = Some (example_flags_live [example_flag 1] 1)"
  "relations (sqlite example_flags_busy) (''flags'' @ historyTableSuffix (config example_flags_busy))
     = Some (example_flags_history [example_flag_version 1 ''INSERT'' ''1.0''] 1)"
  "integrity (example_flags_history [example_flag_version 1 ''INSERT'' ''1.0''] 1)"
  "integrity (example_flags_live [example_flag 1] 1)"
  by (simp_all add: example_flags_defs store_defs)

lemma example_flags_run:
  "insert_record ''flags'' (example_flag 1) example_flags_empty = (Inr (), example_flags_busy)"
  "update ''flags'' [(''active'', VInt 0)] [(''id'', VInt 1)] example_flags_busy =
     (Inr (), example_flags_engine (example_flags_live [example_flag 0] 1)
                (example_flags_history [example_flag_version 1 ''INSERT'' ''1.0'',
                                        example_flag_version 2 ''UPDATE'' ''0.0''] 2))"
  "delete ''flags'' [(''id'', VInt 1)] example_flags_busy =
     (Inr (), example_flags_engine (example_flags_live [] 1)
                (example_flags_history [example_flag_version 1 ''INSERT'' ''1.0'',
                                        example_flag_version 2 ''DELETE'' ''1.0''] 2))"
  "rollback ''flags'' \<lparr>versionId = 1, where_option = [(''id'', VInt 1)]\<rparr>
     (example_flags_engine (example_flags_live [example_flag 0] 1)
                (example_flags_history [example_flag_version 1 ''INSERT'' ''1.0'',
                                        example_flag_version 2 ''UPDATE'' ''0.0''] 2)) =
     (Inr (), example_flags_engine (example_flags_live [example_flag 1] 1)
                (example_flags_history [example_flag_version 1 ''INSERT'' ''1.0'',
                                        example_flag_version 2 ''UPDATE'' ''0.0'',
                                        example_flag_version 3 ''UPDATE'' ''1.0''] 3))"
proof -
  show "insert_record ''flags'' (example_flag 1) example_flags_empty = (Inr (), example_flags_busy)"
    by (simp add: insert_record_def recordVersion_def object_keys_def object_values_def
          example_flags_defs store_defs)
  show "update ''flags'' [(''active'', VInt 0)] [(''id'', VInt 1)] example_flags_busy =
     (Inr (), example_flags_engine (example_flags_live [example_flag 0] 1)
                (example_flags_history [example_flag_version 1 ''INSERT'' ''1.0'',
                                        example_flag_version 2 ''UPDATE'' ''0.0''] 2))"
    by (simp add: update_def recordVersion_def object_keys_def object_values_def spread_def
          example_flags_defs store_defs)
  show "delete ''flags'' [(''id'', VInt 1)] example_flags_busy =
     (Inr (), example_flags_engine (example_flags_live [] 1)
                (example_flags_history [example_flag_version 1 ''INSERT'' ''1.0'',
                                        example_flag_version 2 ''DELETE'' ''1.0''] 2))"
    by (simp add: delete_def recordVersion_def object_keys_def object_values_def
          example_flags_defs store_defs)
  show "rollback ''flags'' \<lparr>versionId = 1, where_option = [(''id'', VInt 1)]\<rparr>
     (example_flags_engine (example_flags_live [example_flag 0] 1)
                (example_flags_history [example_flag_version 1 ''INSERT'' ''1.0'',
                                        example_flag_version 2 ''UPDATE'' ''0.0''] 2)) =
     (Inr (), example_flags_engine (example_flags_live [example_flag 1] 1)
                (example_flags_history [example_flag_version 1 ''INSERT'' ''1.0'',
                                        example_flag_version 2 ''UPDATE'' ''0.0'',
                                        example_flag_version 3 ''UPDATE'' ''1.0''] 3))"
    by (simp add: rollback_def getVersion_def update_def recordVersion_def object_keys_def
          object_values_def spread_def rest_without_def version_names_def number_def Let_def
          example_flags_defs store_defs)
qed


section \<open>The claims\<close>

subsection \<open>Insert\<close>

text \<open>
  Claim C5 says that the version \<open>insert\<close> records has the caller-supplied value map as
  its attributes, for every registered table and value map. The history relation stores
  what its column types make of the supplied values, and \<open>createHistoryTable\<close> types
  every column whose descriptor it does not recognise as TEXT: the flags table, registered
  by the engine, records the text \<open>'1.0'\<close> for the supplied number 1.
\<close>

theorem insert_version_counterexample:
  "registerTable example_flags_table ''flags'' example_flags_new =
     (Inr \<lparr>table = example_flags_table, historyTableName = ''flags_history'',
            table_config = example_config\<rparr>, example_flags_empty) \<and>
   insert_record ''flags'' [(''id'', VInt 1), (''active'', VInt 1)] example_flags_empty
     = (Inr (), example_flags_busy) \<and>
   map_option rows (relations (sqlite example_flags_busy) ''flags'')
     = Some [[(''id'', VInt 1), (''active'', VInt 1)]] \<and>
   map_option rows (relations (sqlite example_flags_busy) ''flags_history'')
     = Some [example_flag_version 1 ''INSERT'' ''1.0''] \<and>
   rest_without version_names (example_flag_version 1 ''INSERT'' ''1.0'')
     = [(''id'', VInt 1), (''active'', VText ''1.0'')] \<and>
   rest_without version_names (example_flag_version 1 ''INSERT'' ''1.0'')
     \<noteq> [(''id'', VInt 1), (''active'', VInt 1)]"
  using example_flags_registered example_flags_run(1)
  by (simp add: example_flags_defs rest_without_def version_names_def)

text \<open>
  Claim C5, amended. For a registered table whose history relation has the shape the
  engine creates, and a value map the store accepts for the live relation,
  \<open>insert(name, valueMap)\<close> returns normally; the live relation is exactly what the
  store makes of \<open>INSERT\<close> with the supplied columns and values (one more row, holding
  every supplied non-null value as the live column's type stores it); and the history
  relation gains exactly one row, with operation INSERT, whose attributes are the
  supplied values as the history column's type stores them: a live column that the
  caller did not supply is NULL in the version, whatever the store put in the live row.
  The stored values are the supplied ones verbatim where the column types keep them.
\<close>

theorem insert_records_supplied_values:
  assumes reg: "versionedTables c tableName = Some vt"
    and live: "relations (sqlite c) tableName = Some live"
    and hist: "relations (sqlite c) (tableName @ historyTableSuffix (config c)) = Some hist"
    and sh: "history_shape (column_names live) hist"
    and int: "integrity hist"
    and d: "distinct (object_keys vals)"
    and acc: "sql_insert tableName vals (sqlite c) = Inr db"
  shows "\<exists>c' w v.
      insert_record tableName vals c = (Inr (), c') \<and>
      relations (sqlite c') tableName = relations db tableName \<and>
      map_option rows (relations (sqlite c') tableName) = Some (rows live @ [w]) \<and>
      (\<forall>(k, x) \<in> set vals. x \<noteq> VNull \<longrightarrow> property w k = stored (sqlite c) live k x) \<and>
      map_option rows (relations (sqlite c') (tableName @ historyTableSuffix (config c)))
        = Some (rows hist @ [v]) \<and>
      property v ''version_operation'' = VText ''INSERT'' \<and>
      rest_without version_names v
        = map (\<lambda>k. (k, stored (sqlite c) hist k (property vals k))) (column_names live) \<and>
      (\<forall>k \<in> set (column_names live).
         property v k = (if k \<in> set (object_keys vals)
                         then stored (sqlite c) hist k (property vals k) else VNull)) \<and>
      (kept (sqlite c) live vals \<longrightarrow>
         (\<forall>(k, x) \<in> set vals. x \<noteq> VNull \<longrightarrow> property w k = x)) \<and>
      (kept (sqlite c) hist vals \<longrightarrow>
         rest_without version_names v = map (\<lambda>k. (k, property vals k)) (column_names live) \<and>
         (\<forall>k \<in> set (column_names live).
            property v k = (if k \<in> set (object_keys vals) then property vals k else VNull)))"
proof -
  let ?h = "tableName @ historyTableSuffix (config c)"
  let ?w = "new_row (sqlite c) live vals"
  let ?s = "stored_object (sqlite c) hist vals"
  let ?v = "version_row db hist INSERT ?s (column_names live)"
  note a = sql_insert_accepted[OF acc live]
  have d': "distinct (map fst vals)" using d by (simp add: object_keys_def)
  have ne: "tableName \<noteq> ?h" by (rule shape_table_neq[OF live hist sh])
  let ?c1 = "c\<lparr>sqlite := db\<rparr>"
  have hist1: "relations (sqlite ?c1) (tableName @ historyTableSuffix (config ?c1)) = Some hist"
    using hist ne by (simp add: a(3))
  have so: "stored_object (sqlite ?c1) hist vals = ?s" by (simp add: a(6))
  have rv: "recordVersion tableName vals INSERT ?c1 =
     (Inr (), ?c1\<lparr>sqlite := (sqlite ?c1)\<lparr>relations :=
        (relations (sqlite ?c1))(tableName @ historyTableSuffix (config ?c1) \<mapsto>
           hist\<lparr>rows := rows hist @ [version_row (sqlite ?c1) hist INSERT ?s (column_names live)],
                seq := seq hist + 1\<rparr>)\<rparr>\<rparr>)"
    using recordVersion_appends[OF hist1 sh int a(2), of INSERT] by (simp only: so)
  have stmt: "zip (object_keys vals) (map (property vals) (object_keys vals)) = vals"
    by (rule zip_keys_properties[OF d'])
  have run: "insert_record tableName vals c = recordVersion tableName vals INSERT ?c1"
    unfolding insert_record_def Let_def
    by (simp only: reg option.case stmt acc sum.case)
  have verb: "\<forall>(k, x) \<in> set vals. x \<noteq> VNull \<longrightarrow> property ?w k = stored (sqlite c) live k x"
    using a(2) d' by (auto intro!: new_row_supplied)
  have rest: "rest_without version_names ?v
        = map (\<lambda>k. (k, stored (sqlite c) hist k (property vals k))) (column_names live)"
    by (simp add: rest_version_row[OF sh] property_stored_object)
  have attrs: "\<forall>k \<in> set (column_names live).
         property ?v k = (if k \<in> set (object_keys vals)
                          then stored (sqlite c) hist k (property vals k) else VNull)"
    by (simp add: version_row_attr[OF sh] property_stored_object object_keys_def
          property_absent stored_null)
  have verb': "\<forall>(k, x) \<in> set vals. x \<noteq> VNull \<longrightarrow> property ?w k = x"
    if "kept (sqlite c) live vals"
    using verb that by (fastforce simp: kept_def list_all_iff)
  have rest': "rest_without version_names ?v = map (\<lambda>k. (k, property vals k)) (column_names live)"
    if "kept (sqlite c) hist vals"
    by (simp add: rest_version_row[OF sh] kept_stored_object[OF that])
  have attrs': "\<forall>k \<in> set (column_names live).
         property ?v k = (if k \<in> set (object_keys vals) then property vals k else VNull)"
    if "kept (sqlite c) hist vals"
    by (simp add: version_row_attr[OF sh] kept_stored_object[OF that] object_keys_def
          property_absent)
  have live': "relations db tableName = Some (live\<lparr>rows := rows live @ [?w],
               seq := bump_seq (key_columns live) ?w (seq live)\<rparr>)"
    by (simp add: a(3))
  show ?thesis
    apply (rule exI[of _ "snd (insert_record tableName vals c)"])
    apply (rule exI[of _ ?w])
    apply (rule exI[of _ ?v])
    apply (intro conjI impI)
    subgoal by (simp add: run rv)
    subgoal using ne by (simp add: run rv)
    subgoal using ne by (simp add: run rv live')
    subgoal by (rule verb)
    subgoal by (simp add: run rv)
    subgoal by (simp add: version_row_props)
    subgoal by (rule rest)
    subgoal by (rule attrs)
    subgoal by (rule verb')
    subgoal by (rule rest')
    subgoal by (rule attrs')
    done
qed

theorem insert_records_supplied_values_witness:
  "versionedTables example_empty ''users'' = Some example_versioned \<and>
   relations (sqlite example_empty) ''users'' = Some (example_live [] 0) \<and>
   relations (sqlite example_empty) (''users'' @ historyTableSuffix (config example_empty))
     = Some (example_history [] 0) \<and>
   history_shape (column_names (example_live [] 0)) (example_history [] 0) \<and>
   integrity (example_history [] 0) \<and>
   distinct (object_keys [(''name'', VText ''V1'')]) \<and>
   sql_insert ''users'' [(''name'', VText ''V1'')] (sqlite example_empty)
     = Inr (example_database (example_live [example_row 1 ''V1''] 1) (example_history [] 0)) \<and>
   kept (sqlite example_empty) (example_live [] 0) [(''name'', VText ''V1'')] \<and>
   kept (sqlite example_empty) (example_history [] 0) [(''name'', VText ''V1'')] \<and>
   (\<exists>c' v. insert_record ''users'' [(''name'', VText ''V1'')] example_empty = (Inr (), c') \<and>
      map_option rows (relations (sqlite c') ''users'') = Some [example_row 1 ''V1''] \<and>
      map_option rows (relations (sqlite c') ''users_history'') = Some [v] \<and>
      property v ''version_operation'' = VText ''INSERT'' \<and>
      property v ''name'' = VText ''V1'' \<and>
      property v ''id'' = VNull)"
proof -
  let ?vals = "[(''name'', VText ''V1'')]"
  have h1: "versionedTables example_empty ''users'' = Some example_versioned"
    by (simp add: example_defs)
  have h2: "relations (sqlite example_empty) ''users'' = Some (example_live [] 0)"
    by (simp add: example_defs)
  have h3: "relations (sqlite example_empty) (''users'' @ historyTableSuffix (config example_empty))
     = Some (example_history [] 0)"
    by (simp add: example_defs)
  note h4 = example_empty_shape[of "[]" 0 "[]" 0]
  note h5 = example_empty_integrity
  have h6: "distinct (object_keys ?vals)" by (simp add: object_keys_def)
  have h7: "sql_insert ''users'' ?vals (sqlite example_empty)
     = Inr (example_database (example_live [example_row 1 ''V1''] 1) (example_history [] 0))"
    by (simp add: example_defs store_defs)
  have k1: "kept (sqlite example_empty) (example_live [] 0) ?vals"
    by (simp add: kept_def example_defs store_defs)
  have k2: "kept (sqlite example_empty) (example_history [] 0) ?vals"
    by (simp add: kept_def example_defs store_defs)
  from insert_records_supplied_values[OF h1 h2 h3 h4 h5 h6 h7] k2
  obtain c' w v where r: "insert_record ''users'' ?vals example_empty = (Inr (), c')"
    and l: "relations (sqlite c') ''users'' = relations (example_database (example_live [example_row 1 ''V1''] 1) (example_history [] 0)) ''users''"
    and hr: "map_option rows (relations (sqlite c') (''users'' @ historyTableSuffix (config example_empty))) = Some (rows (example_history [] 0) @ [v])"
    and op: "property v ''version_operation'' = VText ''INSERT''"
    and at: "\<forall>k \<in> set (column_names (example_live [] 0)).
         property v k = (if k \<in> set (object_keys ?vals) then property ?vals k else VNull)"
    by blast
  have l': "map_option rows (relations (sqlite c') ''users'') = Some [example_row 1 ''V1'']"
    by (simp add: l example_defs)
  have hr': "map_option rows (relations (sqlite c') ''users_history'') = Some [v]"
    using hr by (simp add: example_defs)
  have a1: "property v ''name'' = VText ''V1''" "property v ''id'' = VNull"
    using at by (simp_all add: example_defs column_names_def object_keys_def property_def)
  show ?thesis using h1 h2 h3 h4 h5 h6 h7 k1 k2 r l' hr' op a1 by blast
qed

subsection \<open>Update\<close>




subsection \<open>Delete\<close>




subsection \<open>Rollback\<close>




text \<open>
  Claim C7. When no row of the history relation has the requested \<open>version_id\<close>,
  \<open>rollback\<close> on a registered table fails with "Version ... not found" and leaves the
  engine and the store exactly as they were, while \<open>getVersion\<close> returns \<open>null\<close> and does
  not fail.
\<close>

theorem rollback_unknown_version:
  assumes hist: "relations (sqlite c) (tableName @ historyTableSuffix (config c)) = Some hist"
    and col: "''version_id'' \<in> set (column_names hist)"
    and absent: "VInt n \<notin> set (map (\<lambda>row. property row ''version_id'') (rows hist))"
  shows "(versionedTables c tableName \<noteq> None \<longrightarrow>
            rollback tableName \<lparr>versionId = n, where_option = wh\<rparr> c
              = (Inl (VersionNotFound n), c)) \<and>
         getVersion tableName n c = Inr None"
proof -
  have "find (matches [(''version_id'', VInt n)]) (rows hist) = None"
    using absent by (force simp: find_None_iff matches_version_id image_iff)
  then have g: "getVersion tableName n c = Inr None"
    by (simp add: getVersion_find[OF hist col])
  then show ?thesis by (auto simp: rollback_def)
qed

theorem rollback_unknown_version_witness:
  "relations (sqlite example_busy) (''users'' @ historyTableSuffix (config example_busy))
     = Some (example_history example_versions 3) \<and>
   ''version_id'' \<in> set (column_names (example_history example_versions 3)) \<and>
   VInt 99999 \<notin> set (map (\<lambda>row. property row ''version_id'')
                        (rows (example_history example_versions 3))) \<and>
   versionedTables example_busy ''users'' \<noteq> None \<and>
   rollback ''users'' \<lparr>versionId = 99999, where_option = [(''id'', VInt 1)]\<rparr> example_busy
     = (Inl (VersionNotFound 99999), example_busy) \<and>
   getVersion ''users'' 99999 example_busy = Inr None"
proof -
  note h = example_busy_facts
  note col = example_history_version_id[of example_versions 3]
  have a: "VInt 99999 \<notin> set (map (\<lambda>row. property row ''version_id'')
                        (rows (example_history example_versions 3)))"
    by (simp add: example_history_def example_versions_def example_version_def property_def)
  have reg: "versionedTables example_busy ''users'' \<noteq> None" by (simp add: h(1))
  show ?thesis
    using rollback_unknown_version[OF h(3) col a, of "[(''id'', VInt 1)]"] h(3) col a reg
    by blast
qed

text \<open>
  Claim C10. When the requested version exists but the predicate (a non-empty conjunction
  over live columns) matches no live row, \<open>rollback\<close> fails with "Record not found",
  the error of the \<open>update\<close> it delegates to, and leaves the engine and the store exactly
  as they were: no history row is appended and the live relation is unchanged.
\<close>

theorem rollback_without_live_row:
  assumes reg: "versionedTables c tableName = Some vt"
    and live: "relations (sqlite c) tableName = Some live"
    and hist: "relations (sqlite c) (tableName @ historyTableSuffix (config c)) = Some hist"
    and col: "''version_id'' \<in> set (column_names hist)"
    and ver: "find (matches [(''version_id'', VInt n)]) (rows hist) = Some version"
    and wh: "wh \<noteq> []" "set (object_keys wh) \<subseteq> set (column_names live)"
    and none: "find (matches wh) (rows live) = None"
  shows "rollback tableName \<lparr>versionId = n, where_option = wh\<rparr> c = (Inl RecordNotFound, c)"
  by (simp only: rollback_delegates[OF reg hist col ver] update_not_found[OF reg live wh none])

theorem rollback_without_live_row_witness:
  "versionedTables example_deleted ''users'' = Some example_versioned \<and>
   relations (sqlite example_deleted) ''users'' = Some (example_live [] 1) \<and>
   relations (sqlite example_deleted) (''users'' @ historyTableSuffix (config example_deleted))
     = Some (example_history (example_versions @ [example_version 4 ''DELETE'' (VInt 1) ''V3'']) 4) \<and>
   ''version_id'' \<in> set (column_names
      (example_history (example_versions @ [example_version 4 ''DELETE'' (VInt 1) ''V3'']) 4)) \<and>
   find (matches [(''version_id'', VInt 2)])
     (rows (example_history (example_versions @ [example_version 4 ''DELETE'' (VInt 1) ''V3'']) 4))
     = Some (example_version 2 ''UPDATE'' (VInt 1) ''V2'') \<and>
   [(''id'', VInt 1)] \<noteq> [] \<and>
   set (object_keys [(''id'', VInt 1)]) \<subseteq> set (column_names (example_live [] 1)) \<and>
   find (matches [(''id'', VInt 1)]) (rows (example_live [] 1)) = None \<and>
   rollback ''users'' \<lparr>versionId = 2, where_option = [(''id'', VInt 1)]\<rparr> example_deleted
     = (Inl RecordNotFound, example_deleted)"
proof -
  let ?hist = "example_history (example_versions @ [example_version 4 ''DELETE'' (VInt 1) ''V3'']) 4"
  note h = example_deleted_facts
  note col = example_history_version_id[of "example_versions @ [example_version 4 ''DELETE'' (VInt 1) ''V3'']" 4]
  have ver: "find (matches [(''version_id'', VInt 2)]) (rows ?hist)
     = Some (example_version 2 ''UPDATE'' (VInt 1) ''V2'')"
    by (simp add: example_history_def example_versions_def example_version_def matches_version_id property_def)
  have ne: "[(''id'', VInt 1)] \<noteq> ([] :: obj)" by simp
  have k: "set (object_keys [(''id'', VInt 1)]) \<subseteq> set (column_names (example_live [] 1))"
    by (simp add: example_live_def object_keys_def column_names_def)
  have none: "find (matches [(''id'', VInt 1)]) (rows (example_live [] 1)) = None"
    by (simp add: example_live_def)
  show ?thesis
    using rollback_without_live_row[OF h(1) h(2) h(3) col ver ne k none] h col ver ne k none
    by blast
qed

subsection \<open>Reading versions\<close>

text \<open>
  Claim C6. For a history relation whose \<open>version_id\<close> is its integer key, and a
  predicate that is a non-empty conjunction over its columns, \<open>getVersions(name,
  predicate)\<close> returns exactly the rows that match, in strictly increasing \<open>version_id\<close>
  order, and returns the empty list (no error) when no row matches. The order is the
  order of the calls: a version that \<open>recordVersion\<close>, the only writer of the history
  relation, records afterwards comes last in the answer when it matches. Registration is
  not consulted.
\<close>

theorem getVersions_ordered_by_version_id:
  assumes hist: "relations (sqlite c) (tableName @ historyTableSuffix (config c)) = Some hist"
    and key: "''version_id'' \<in> set (key_columns hist)"
    and int: "integrity hist"
    and wh: "wh \<noteq> []" "set (object_keys wh) \<subseteq> set (column_names hist)"
  shows "\<exists>vs.
      getVersions tableName wh c = Inr vs \<and>
      set vs = {row \<in> set (rows hist). matches wh row} \<and>
      length vs = length (filter (matches wh) (rows hist)) \<and>
      sorted_wrt (\<lambda>a b. version_id_of a < version_id_of b) vs \<and>
      (find (matches wh) (rows hist) = None \<longrightarrow> vs = []) \<and>
      (\<forall>vals operation c'.
         ''version_id'' \<notin> set (object_keys vals) \<and>
         recordVersion tableName vals operation c = (Inr (), c') \<longrightarrow>
         (\<exists>v. map_option rows (relations (sqlite c') (tableName @ historyTableSuffix (config c)))
                 = Some (rows hist @ [v]) \<and>
               getVersions tableName wh c' = Inr (vs @ filter (matches wh) [v])))"
proof -
  let ?h = "tableName @ historyTableSuffix (config c)"
  let ?f = "\<lambda>row. val_key (property row ''version_id'')"
  let ?vs = "sort_key ?f (filter (matches wh) (rows hist))"
  note col = key_column_is_column[OF key]
  note ko = integrity_key[OF int key]
  have g: "getVersions tableName wh c = Inr ?vs" by (rule getVersions_rows[OF hist col wh])
  have s: "sorted_wrt (\<lambda>a b. version_id_of a < version_id_of b) ?vs"
    by (rule sorted_by_version_id[OF ko])
  have e: "find (matches wh) (rows hist) = None \<longrightarrow> ?vs = []"
    by (auto simp: find_None_iff filter_empty_conv)
  have later: "\<exists>v. map_option rows (relations (sqlite c') ?h) = Some (rows hist @ [v]) \<and>
               getVersions tableName wh c' = Inr (?vs @ filter (matches wh) [v])"
    if nk: "''version_id'' \<notin> set (object_keys vals)"
      and rv: "recordVersion tableName vals operation c = (Inr (), c')"
    for vals operation c'
  proof -
    from recordVersion_new_key[OF rv hist key nk] obtain v s'
      where c': "c' = c\<lparr>sqlite := (sqlite c)\<lparr>relations :=
             (relations (sqlite c))(?h \<mapsto> hist\<lparr>rows := rows hist @ [v], seq := s'\<rparr>)\<rparr>\<rparr>"
        and id: "property v ''version_id'' = VInt (seq hist + 1)"
      by blast
    let ?r = "hist\<lparr>rows := rows hist @ [v], seq := s'\<rparr>"
    have hist': "relations (sqlite c') (tableName @ historyTableSuffix (config c')) = Some ?r"
      by (simp add: c')
    have col': "''version_id'' \<in> set (column_names ?r)" using col by (simp add: column_names_def)
    have wh': "set (object_keys wh) \<subseteq> set (column_names ?r)"
      using wh(2) by (simp add: column_names_def)
    have g': "getVersions tableName wh c' = Inr (sort_key ?f (filter (matches wh) (rows ?r)))"
      by (rule getVersions_rows[OF hist' col' wh(1) wh'])
    have before: "\<forall>x \<in> set (filter (matches wh) (rows hist)). ?f x < ?f v"
    proof
      fix x assume "x \<in> set (filter (matches wh) (rows hist))"
      then have "x \<in> set (rows hist)" by simp
      from key_ok_cell[OF ko this] obtain n where "property x ''version_id'' = VInt n" "n \<le> seq hist"
        by blast
      then show "?f x < ?f v" by (simp add: id)
    qed
    have "sort_key ?f (filter (matches wh) (rows ?r)) = ?vs @ filter (matches wh) [v]"
      using sort_key_snoc[OF before] by simp
    then have "getVersions tableName wh c' = Inr (?vs @ filter (matches wh) [v])"
      by (simp only: g')
    moreover have "map_option rows (relations (sqlite c') ?h) = Some (rows hist @ [v])"
      by (simp add: c')
    ultimately show ?thesis by blast
  qed
  show ?thesis
    apply (rule exI[of _ ?vs])
    apply (intro conjI allI impI)
    subgoal by (rule g)
    subgoal by auto
    subgoal by simp
    subgoal by (rule s)
    subgoal using e by blast
    subgoal for vals operation c' using later[of vals operation c'] by blast
    done
qed

theorem getVersions_ordered_by_version_id_witness:
  "relations (sqlite example_busy) (''users'' @ historyTableSuffix (config example_busy))
     = Some (example_history example_versions 3) \<and>
   ''version_id'' \<in> set (key_columns (example_history example_versions 3)) \<and>
   integrity (example_history example_versions 3) \<and>
   [(''id'', VInt 1)] \<noteq> [] \<and>
   set (object_keys [(''id'', VInt 1)]) \<subseteq> set (column_names (example_history example_versions 3)) \<and>
   getVersions ''users'' [(''id'', VInt 1)] example_busy = Inr example_versions \<and>
   sorted_wrt (\<lambda>a b. version_id_of a < version_id_of b) example_versions \<and>
   find (matches [(''id'', VInt 7)]) (rows (example_history example_versions 3)) = None \<and>
   getVersions ''users'' [(''id'', VInt 7)] example_busy = Inr [] \<and>
   ''version_id'' \<notin> set (object_keys (example_row 1 ''V3'')) \<and>
   recordVersion ''users'' (example_row 1 ''V3'') DELETE example_busy
     = (Inr (), example_engine (example_live [example_row 1 ''V3''] 1)
         (example_history (example_versions @ [example_version 4 ''DELETE'' (VInt 1) ''V3'']) 4)) \<and>
   getVersions ''users'' [(''id'', VInt 1)]
       (example_engine (example_live [example_row 1 ''V3''] 1)
         (example_history (example_versions @ [example_version 4 ''DELETE'' (VInt 1) ''V3'']) 4))
     = Inr (example_versions @ [example_version 4 ''DELETE'' (VInt 1) ''V3''])"
proof -
  let ?hist = "example_history example_versions 3"
  let ?c' = "example_engine (example_live [example_row 1 ''V3''] 1)
         (example_history (example_versions @ [example_version 4 ''DELETE'' (VInt 1) ''V3'']) 4)"
  let ?v4 = "example_version 4 ''DELETE'' (VInt 1) ''V3''"
  note h = example_busy_facts
  note key = example_history_key[of example_versions 3]
  have ne: "[(''id'', VInt k)] \<noteq> ([] :: obj)" for k by simp
  have k: "set (object_keys [(''id'', VInt k)]) \<subseteq> set (column_names ?hist)" for k
    by (simp add: example_history_def object_keys_def column_names_def version_columns_def)
  have g1: "getVersions ''users'' [(''id'', VInt 1)] example_busy = Inr example_versions"
    by (simp add: getVersions_def example_defs store_defs)
  have n7: "find (matches [(''id'', VInt 7)]) (rows ?hist) = None"
    by (simp add: example_defs store_defs)
  have nk: "''version_id'' \<notin> set (object_keys (example_row 1 ''V3''))"
    by (simp add: example_row_def object_keys_def)
  have rv: "recordVersion ''users'' (example_row 1 ''V3'') DELETE example_busy = (Inr (), ?c')"
    by (simp add: recordVersion_def object_keys_def object_values_def example_defs store_defs)
  from getVersions_ordered_by_version_id[OF h(3) key h(4) ne[of 1] k[of 1]]
  obtain vs where a: "getVersions ''users'' [(''id'', VInt 1)] example_busy = Inr vs"
    and s: "sorted_wrt (\<lambda>a b. version_id_of a < version_id_of b) vs"
    and later: "\<forall>vals operation c'.
         ''version_id'' \<notin> set (object_keys vals) \<and>
         recordVersion ''users'' vals operation example_busy = (Inr (), c') \<longrightarrow>
         (\<exists>v. map_option rows (relations (sqlite c') (''users'' @ historyTableSuffix (config example_busy)))
                 = Some (rows ?hist @ [v]) \<and>
               getVersions ''users'' [(''id'', VInt 1)] c' = Inr (vs @ filter (matches [(''id'', VInt 1)]) [v]))"
    by blast
  have vs: "vs = example_versions" using a g1 by simp
  from later nk rv obtain v
    where v: "map_option rows (relations (sqlite ?c') (''users'' @ historyTableSuffix (config example_busy)))
                 = Some (rows ?hist @ [v])"
      and g2: "getVersions ''users'' [(''id'', VInt 1)] ?c' = Inr (vs @ filter (matches [(''id'', VInt 1)]) [v])"
    by blast
  have "v = ?v4" using v by (simp add: example_busy_def example_engine_simps example_database_simps example_history_def)
  then have g2': "getVersions ''users'' [(''id'', VInt 1)] ?c' = Inr (example_versions @ [?v4])"
    using g2 vs by (simp add: example_version_def matches_def sql_eq_def property_def)
  from getVersions_ordered_by_version_id[OF h(3) key h(4) ne[of 7] k[of 7]] n7
  have g7: "getVersions ''users'' [(''id'', VInt 7)] example_busy = Inr []"
    by auto
  show ?thesis using h(3,4) key ne[of 1] k[of 1] g1 s[unfolded vs] n7 g7 nk rv g2' by blast
qed

subsection \<open>Registration and schema derivation\<close>

text \<open>
  Claim C3 says that the history relation lists the live columns first and the three
  metadata columns last. The \<open>CREATE TABLE\<close> text of \<open>createHistoryTable\<close> lists the
  metadata columns first: for the example table the created relation is not laid out as
  the claim says.
\<close>

theorem history_columns_counterexample:
  "map_option column_names
     (relations (sqlite (snd (registerTable example_table ''users'' example_new))) ''users_history'')
   \<noteq> Some (map col_name (live_columns example_table) @ version_names)"
proof -
  note fresh = example_new_facts(2)
  have ne: "live_columns example_table \<noteq> []" by (simp add: example_table_columns)
  have d: "distinct (version_names @ map col_name (live_columns example_table))"
    by (simp add: example_table_columns version_names_def)
  show ?thesis
    by (simp add: registerTable_creates[OF example_new_facts(1) fresh ne d] example_new_facts(3)
          column_names_def example_table_columns version_columns_def version_names_def)
qed

text \<open>
  Claim C3, amended. When a table is registered with automatic creation, its history
  relation does not exist yet, and the descriptor declares at least one column, with
  names distinct from each other and from the metadata names, then registration
  succeeds and the created history relation's columns are the three metadata columns
  \<open>version_id\<close> (integer, auto-increment primary key), \<open>version_created_at\<close> (text, not
  null, defaulting to the current timestamp) and \<open>version_operation\<close> (text, one of
  INSERT, UPDATE, DELETE), in that order, followed by the live table's columns in their
  declared order.
\<close>

theorem history_columns_after_metadata:
  assumes auto: "autoCreateHistoryTables (config c)"
    and fresh: "relations (sqlite c) (tableName @ historyTableSuffix (config c)) = None"
    and ne: "live_columns tbl \<noteq> []"
    and d: "distinct (version_names @ map col_name (live_columns tbl))"
  shows "\<exists>vt c' hist.
      registerTable tbl tableName c = (Inr vt, c') \<and>
      versionedTables c' tableName = Some vt \<and>
      relations (sqlite c') (tableName @ historyTableSuffix (config c)) = Some hist \<and>
      columns hist = version_columns @ live_columns tbl \<and>
      map col_name version_columns = [''version_id'', ''version_created_at'', ''version_operation''] \<and>
      map col_type version_columns = [INTEGER, TEXT, TEXT] \<and>
      map col_constraint version_columns =
        [PrimaryKeyAutoincrement, NotNullDefaultCurrentTimestamp,
         NotNullCheckIn [''INSERT'', ''UPDATE'', ''DELETE'']] \<and>
      history_shape (map col_name (live_columns tbl)) hist"
proof -
  let ?hist = "\<lparr>columns = version_columns @ live_columns tbl, rows = [], seq = 0\<rparr>"
  have l3: "length version_columns = 3" by (simp add: version_columns_def)
  have sh: "history_shape (map col_name (live_columns tbl)) ?hist"
    unfolding history_shape_def
  proof (intro conjI)
    show "take 3 (columns ?hist) = version_columns" using l3 by simp
    show "map col_name (drop 3 (columns ?hist)) = map col_name (live_columns tbl)"
      using l3 by simp
    show "list_all (\<lambda>cd. col_constraint cd = Unconstrained) (drop 3 (columns ?hist))"
      using l3 live_columns_unconstrained[of tbl] by simp
    show "distinct (column_names ?hist)"
      using d by (simp only: column_names_def relation.simps map_append version_columns_names)
  qed
  show ?thesis
    apply (simp only: registerTable_creates[OF auto fresh ne d])
    apply (intro exI conjI)
           apply (rule refl)
          apply simp
         apply simp
        apply simp
       apply (simp add: version_columns_def)
      apply (simp add: version_columns_def)
     apply (simp add: version_columns_def)
    apply (rule sh)
    done
qed

theorem history_columns_after_metadata_witness:
  "autoCreateHistoryTables (config example_new) \<and>
   relations (sqlite example_new) (''users'' @ historyTableSuffix (config example_new)) = None \<and>
   live_columns example_table \<noteq> [] \<and>
   distinct (version_names @ map col_name (live_columns example_table)) \<and>
   (\<exists>vt c'. registerTable example_table ''users'' example_new = (Inr vt, c') \<and>
      versionedTables c' ''users'' = Some vt \<and>
      map_option column_names (relations (sqlite c') ''users_history'')
        = Some [''version_id'', ''version_created_at'', ''version_operation'', ''id'', ''name''])"
proof -
  note fresh = example_new_facts(2)
  have ne: "live_columns example_table \<noteq> []" by (simp add: example_table_columns)
  have d: "distinct (version_names @ map col_name (live_columns example_table))"
    by (simp add: example_table_columns version_names_def)
  from history_columns_after_metadata[OF example_new_facts(1) fresh ne d]
  obtain vt c' hist where r: "registerTable example_table ''users'' example_new = (Inr vt, c')"
    and v: "versionedTables c' ''users'' = Some vt"
    and h: "relations (sqlite c') (''users'' @ historyTableSuffix (config example_new)) = Some hist"
    and c: "columns hist = version_columns @ live_columns example_table"
    by blast
  have "map_option column_names (relations (sqlite c') ''users_history'')
        = Some [''version_id'', ''version_created_at'', ''version_operation'', ''id'', ''name'']"
    using h c by (simp add: example_new_facts(3) column_names_def example_table_columns version_columns_def)
  with r v show ?thesis using example_new_facts(1) fresh ne d by blast
qed

text \<open>
  Claim C9. Schema derivation fails with "Invalid column definition" whenever a column
  descriptor of the live table lacks a name. The \<open>map\<close> callback of \<open>createHistoryTable\<close>
  throws that error on exactly such a descriptor, but the \<open>filter\<close> before it has already
  dropped every property without a name, so the callback never sees one: registration of
  the example descriptor, whose property \<open>id\<close> lacks a name, succeeds, and the history
  relation is created without the column.
\<close>

theorem nameless_descriptor_not_rejected:
  "map (name \<circ> snd) example_nameless = [None, Some ''name''] \<and>
   columnDef (hd example_nameless) = Inl (InvalidColumnDefinition ''id'') \<and>
   fst (registerTable example_nameless ''users'' example_new)
     = Inr \<lparr>table = example_nameless, historyTableName = ''users_history'',
            table_config = example_config\<rparr> \<and>
   map_option column_names
     (relations (sqlite (snd (registerTable example_nameless ''users'' example_new))) ''users_history'')
     = Some [''version_id'', ''version_created_at'', ''version_operation'', ''name'']"
proof -
  note fresh = example_new_facts(2)
  have ne: "live_columns example_nameless \<noteq> []" by (simp add: example_table_columns)
  have d: "distinct (version_names @ map col_name (live_columns example_nameless))"
    by (simp add: example_table_columns version_names_def)
  show ?thesis
    by (simp add: registerTable_creates[OF example_new_facts(1) fresh ne d] example_new_facts(3,4) example_engine_simps(5)
          column_names_def example_table_columns version_columns_def)
       (simp add: example_nameless_def)
qed

text \<open>
  Claim C8 says that the queries fail on a table name that was never registered.
  \<open>getVersions\<close> and \<open>getVersion\<close> do not look at the registry: an engine that has
  registered nothing answers both from a history relation that exists in the store.
\<close>

theorem unregistered_query_counterexample:
  "versionedTables example_unregistered ''users'' = None \<and>
   getVersions ''users'' [(''id'', VInt 1)] example_unregistered = Inr example_versions \<and>
   getVersion ''users'' 2 example_unregistered
     = Inr (Some (example_version 2 ''UPDATE'' (VInt 1) ''V2'')) \<and>
   getVersion ''users'' 99999 example_unregistered = Inr None"
  by (simp add: example_unregistered_facts getVersions_def getVersion_def
        example_engine_simps(5) example_database_simps example_history_def example_versions_def
        example_version_def store_defs)

text \<open>
  Claim C8, amended. On a table name that was never registered, \<open>insert\<close>, \<open>update\<close>
  and \<open>delete\<close> fail with "Table ... is not registered for versioning" and change
  nothing. \<open>getVersions\<close> and \<open>getVersion\<close> never fail with that error: their answer
  does not depend on the registry.
\<close>

theorem unregistered_table_mutations_fail:
  assumes "versionedTables c tableName = None"
  shows "insert_record tableName vals c = (Inl (NotRegistered tableName), c) \<and>
         update tableName vals wh c = (Inl (NotRegistered tableName), c) \<and>
         delete tableName wh c = (Inl (NotRegistered tableName), c) \<and>
         getVersions tableName wh c \<noteq> Inl (NotRegistered t) \<and>
         getVersion tableName n c \<noteq> Inl (NotRegistered t) \<and>
         getVersions tableName wh c = getVersions tableName wh (c\<lparr>versionedTables := registry\<rparr>) \<and>
         getVersion tableName n c = getVersion tableName n (c\<lparr>versionedTables := registry\<rparr>)"
  using assms
  by (simp add: insert_record_def update_def delete_def getVersions_store_error
        getVersion_store_error)
     (simp add: getVersions_def getVersion_def)

theorem unregistered_table_mutations_fail_witness:
  "versionedTables example_unregistered ''users'' = None \<and>
   insert_record ''users'' (example_row 2 ''W'') example_unregistered
     = (Inl (NotRegistered ''users''), example_unregistered) \<and>
   update ''users'' [(''name'', VText ''W'')] [(''id'', VInt 1)] example_unregistered
     = (Inl (NotRegistered ''users''), example_unregistered) \<and>
   delete ''users'' [(''id'', VInt 1)] example_unregistered
     = (Inl (NotRegistered ''users''), example_unregistered) \<and>
   getVersions ''users'' [(''id'', VInt 1)] example_unregistered \<noteq> Inl (NotRegistered ''users'') \<and>
   getVersion ''users'' 2 example_unregistered \<noteq> Inl (NotRegistered ''users'')"
proof -
  note h = example_unregistered_facts(1)
  have i: "insert_record ''users'' (example_row 2 ''W'') example_unregistered
     = (Inl (NotRegistered ''users''), example_unregistered)"
    using unregistered_table_mutations_fail[OF h] by blast
  have u: "update ''users'' [(''name'', VText ''W'')] [(''id'', VInt 1)] example_unregistered
     = (Inl (NotRegistered ''users''), example_unregistered)"
    using unregistered_table_mutations_fail[OF h] by blast
  have d: "delete ''users'' [(''id'', VInt 1)] example_unregistered
     = (Inl (NotRegistered ''users''), example_unregistered)"
    using unregistered_table_mutations_fail[OF h] by blast
  have g: "getVersions ''users'' [(''id'', VInt 1)] example_unregistered \<noteq> Inl (NotRegistered ''users'')"
    using unregistered_table_mutations_fail[OF h] by blast
  have g': "getVersion ''users'' 2 example_unregistered \<noteq> Inl (NotRegistered ''users'')"
    using unregistered_table_mutations_fail[OF h] by blast
  show ?thesis using h i u d g g' by blast
qed



end
